theory Spec2Isabelle
  imports Complex_Main
begin

section \<open>JavaScript numbers\<close>

text \<open>
  Every number of the plugin is an IEEE-754 binary64 value.  A finite value is
  kept as the rational it denotes; the two infinities and NaN are separate
  constructors.  The sign of zero is not kept: the plugin never divides by a
  computed zero and never inspects the sign of a zero.
\<close>

datatype jsnum = Fin rat | PInf | NInf | NaN

text \<open>
  \<open>ilog2 n q\<close> is the binary exponent \<open>k\<close> with \<open>2 ^ k \<le> q < 2 ^ (k + 1)\<close>
  of a positive \<open>q\<close>, searched for at most \<open>n\<close> steps.  The exponents of
  binary64 lie between \<open>-1074\<close> and \<open>1023\<close>, so \<open>1100\<close> steps decide every case:
  beyond them the value overflows or is rounded to zero anyway.
\<close>

fun ilog2 :: "nat \<Rightarrow> rat \<Rightarrow> int" where
  "ilog2 0 q = 0"
| "ilog2 (Suc n) q =
     (if 2 \<le> q then ilog2 n (q / 2) + 1
      else if q < 1 then ilog2 n (q * 2) - 1
      else 0)"

definition pow2 :: "int \<Rightarrow> rat" where
  "pow2 e = (if 0 \<le> e then 2 ^ nat e else 1 / 2 ^ nat (- e))"

text \<open>Rounding to the nearest integer, ties to the even one.\<close>

definition round_even :: "rat \<Rightarrow> int" where
  "round_even x =
     (if x - of_int \<lfloor>x\<rfloor> < 1 / 2 then \<lfloor>x\<rfloor>
      else if 1 / 2 < x - of_int \<lfloor>x\<rfloor> then \<lfloor>x\<rfloor> + 1
      else if even \<lfloor>x\<rfloor> then \<lfloor>x\<rfloor> else \<lfloor>x\<rfloor> + 1)"

text \<open>
  The exponent of the last place of the binary64 value nearest to \<open>q\<close>: 53
  significant bits, and never below the subnormal spacing \<open>2 ^ -1074\<close>.
\<close>

definition ulp_exp :: "rat \<Rightarrow> int" where
  "ulp_exp q = max (ilog2 1100 \<bar>q\<bar> - 52) (- 1074)"

definition fl :: "rat \<Rightarrow> rat" where
  "fl q = (if q = 0 then 0
           else sgn q * of_int (round_even (\<bar>q\<bar> / pow2 (ulp_exp q))) * pow2 (ulp_exp q))"

text \<open>The result of an arithmetic operation: rounded, infinite on overflow.\<close>

definition js_round :: "rat \<Rightarrow> jsnum" where
  "js_round q = (if 2 ^ 1024 \<le> \<bar>fl q\<bar> then (if 0 < q then PInf else NInf)
                 else Fin (fl q))"

fun js_neg :: "jsnum \<Rightarrow> jsnum" where
  "js_neg (Fin a) = Fin (- a)"
| "js_neg PInf = NInf"
| "js_neg NInf = PInf"
| "js_neg NaN = NaN"

fun js_add :: "jsnum \<Rightarrow> jsnum \<Rightarrow> jsnum" where
  "js_add (Fin a) (Fin b) = js_round (a + b)"
| "js_add NaN _ = NaN"
| "js_add _ NaN = NaN"
| "js_add PInf NInf = NaN"
| "js_add NInf PInf = NaN"
| "js_add PInf _ = PInf"
| "js_add NInf _ = NInf"
| "js_add (Fin a) PInf = PInf"
| "js_add (Fin a) NInf = NInf"

definition js_sub :: "jsnum \<Rightarrow> jsnum \<Rightarrow> jsnum" where
  "js_sub x y = js_add x (js_neg y)"

text \<open>The sign of an infinity, as \<open>1\<close> or \<open>-1\<close>, and \<open>0\<close> at NaN.\<close>

fun js_sign :: "jsnum \<Rightarrow> rat" where
  "js_sign (Fin a) = sgn a"
| "js_sign PInf = 1"
| "js_sign NInf = - 1"
| "js_sign NaN = 0"

fun js_mul :: "jsnum \<Rightarrow> jsnum \<Rightarrow> jsnum" where
  "js_mul (Fin a) (Fin b) = js_round (a * b)"
| "js_mul NaN _ = NaN"
| "js_mul _ NaN = NaN"
| "js_mul x y =
     (if js_sign x * js_sign y = 0 then NaN
      else if 0 < js_sign x * js_sign y then PInf else NInf)"

text \<open>Division; a zero divisor stands for \<open>+0\<close>.\<close>

fun js_div :: "jsnum \<Rightarrow> jsnum \<Rightarrow> jsnum" where
  "js_div (Fin a) (Fin b) =
     (if b = 0 then (if a = 0 then NaN else if 0 < a then PInf else NInf)
      else js_round (a / b))"
| "js_div NaN _ = NaN"
| "js_div _ NaN = NaN"
| "js_div (Fin a) _ = Fin 0"
| "js_div x (Fin b) = (if (0 < js_sign x) = (0 \<le> b) then PInf else NInf)"
| "js_div _ _ = NaN"

text \<open>\<open>Math.floor\<close>: the floor of a binary64 value is a binary64 value.\<close>

fun js_floor :: "jsnum \<Rightarrow> jsnum" where
  "js_floor (Fin a) = Fin (of_int \<lfloor>a\<rfloor>)"
| "js_floor x = x"

text \<open>
  The remainder operator \<open>%\<close>: the quotient is truncated towards zero, the
  result has the sign of the dividend and is exact.
\<close>

definition trunc :: "rat \<Rightarrow> int" where
  "trunc q = (if 0 \<le> q then \<lfloor>q\<rfloor> else \<lceil>q\<rceil>)"

fun js_mod :: "jsnum \<Rightarrow> jsnum \<Rightarrow> jsnum" where
  "js_mod (Fin a) (Fin b) = (if b = 0 then NaN else Fin (a - b * of_int (trunc (a / b))))"
| "js_mod NaN _ = NaN"
| "js_mod _ NaN = NaN"
| "js_mod (Fin a) _ = Fin a"
| "js_mod _ _ = NaN"

text \<open>Comparisons: every comparison with NaN is false.\<close>

fun js_lt :: "jsnum \<Rightarrow> jsnum \<Rightarrow> bool" where
  "js_lt (Fin a) (Fin b) = (a < b)"
| "js_lt NaN _ = False"
| "js_lt _ NaN = False"
| "js_lt _ NInf = False"
| "js_lt PInf _ = False"
| "js_lt _ _ = True"

fun js_le :: "jsnum \<Rightarrow> jsnum \<Rightarrow> bool" where
  "js_le (Fin a) (Fin b) = (a \<le> b)"
| "js_le NaN _ = False"
| "js_le _ NaN = False"
| "js_le NInf _ = True"
| "js_le _ PInf = True"
| "js_le _ _ = False"

definition js_gt :: "jsnum \<Rightarrow> jsnum \<Rightarrow> bool" where
  "js_gt x y = js_lt y x"

definition js_ge :: "jsnum \<Rightarrow> jsnum \<Rightarrow> bool" where
  "js_ge x y = js_le y x"

text \<open>Truthiness of a number, and \<open>x || d\<close> on numbers.\<close>

definition js_truthy :: "jsnum \<Rightarrow> bool" where
  "js_truthy x = (x \<noteq> Fin 0 \<and> x \<noteq> NaN)"

definition js_or :: "jsnum \<Rightarrow> jsnum \<Rightarrow> jsnum" where
  "js_or x d = (if js_truthy x then x else d)"


section \<open>The character and its idle state\<close>

text \<open>
  One idle animation definition, as \<open>loadIdleNotetags\<close> builds it:
  \<open>{ name, startPattern, endPattern, probability }\<close>.
\<close>

record idle_anim =
  name :: string
  startPattern :: jsnum
  endPattern :: jsnum
  probability :: jsnum

text \<open>
  The plugin parameters read once when the plugin is loaded:
  \<open>DEFAULT_MIN_IDLE\<close>, \<open>DEFAULT_MAX_IDLE\<close> and \<open>DEFAULT_PROB\<close>.
\<close>

record config =
  DEFAULT_MIN_IDLE :: jsnum
  DEFAULT_MAX_IDLE :: jsnum
  DEFAULT_PROB :: jsnum

text \<open>
  The fields of \<open>Game_Character\<close> that the plugin reads or writes.  The first
  eleven are the plugin's own (\<open>_idleAnimations\<close>, \<open>_isIdling\<close>, ...); the last
  three belong to the engine (\<open>_characterName\<close>, \<open>_pattern\<close>, \<open>_direction\<close>).
  \<open>_currentIdleAnim\<close> is \<open>null\<close> or a definition.
\<close>

record game_character =
  idleAnimations :: "idle_anim list"
  isIdling :: bool
  idleTimer :: jsnum
  idleMinTime :: jsnum
  idleMaxTime :: jsnum
  currentIdleAnim :: "idle_anim option"
  originalPattern :: jsnum
  originalCharacterName :: string
  idleFacingDirection :: nat
  idleFrameCount :: jsnum
  idleAnimLength :: jsnum
  characterName :: string
  pattern :: jsnum
  direction :: nat

text \<open>
  What one call of \<open>updateIdle\<close> observes from outside: the engine's
  \<open>isMoving()\<close> and \<open>_waitCount\<close>, and the values the two calls of
  \<open>Math.random()\<close> return when they are made (the first in \<open>updateIdle\<close>, the
  second in \<open>startIdleAnimation\<close>).
\<close>

record tick_env =
  isMoving :: bool
  waitCount :: jsnum
  roll_random :: jsnum
  select_random :: jsnum

datatype js_error = TypeError

text \<open>
  \<open>initMembers\<close>, applied to the character as the engine's own
  \<open>initMembers\<close> left it.  \<open>_idleFrameCount\<close> and \<open>_idleAnimLength\<close> are not
  assigned here.
\<close>

definition initMembers :: "config \<Rightarrow> game_character \<Rightarrow> game_character" where
  "initMembers cfg c =
     c\<lparr>idleAnimations := [],
       isIdling := False,
       idleTimer := Fin 0,
       idleMinTime := DEFAULT_MIN_IDLE cfg,
       idleMaxTime := DEFAULT_MAX_IDLE cfg,
       currentIdleAnim := None,
       originalPattern := Fin 0,
       originalCharacterName := [],
       idleFacingDirection := 2\<rparr>"

text \<open>
  \<open>setCharacterIdleData(idleAnims, minTime, maxTime)\<close>; \<open>None\<close> is
  \<open>undefined\<close>.
\<close>

definition setCharacterIdleData ::
  "idle_anim list \<Rightarrow> jsnum option \<Rightarrow> jsnum option \<Rightarrow> game_character \<Rightarrow> game_character" where
  "setCharacterIdleData idleAnims minTime maxTime c =
     (case maxTime of
        None \<Rightarrow> (\<lambda>d. d)
      | Some mx \<Rightarrow> (\<lambda>d. d\<lparr>idleMaxTime := mx\<rparr>))
     ((case minTime of
        None \<Rightarrow> (\<lambda>d. d)
      | Some mn \<Rightarrow> (\<lambda>d. d\<lparr>idleMinTime := mn\<rparr>))
      (c\<lparr>idleAnimations := idleAnims\<rparr>))"

subsection \<open>Weighted selection\<close>

text \<open>\<open>anim.probability || 100\<close>\<close>

definition anim_weight :: "idle_anim \<Rightarrow> jsnum" where
  "anim_weight anim = js_or (probability anim) (Fin 100)"

text \<open>\<open>this._idleAnimations.reduce((sum, anim) => sum + (anim.probability || 100), 0)\<close>\<close>

definition totalWeight :: "idle_anim list \<Rightarrow> jsnum" where
  "totalWeight anims = foldl (\<lambda>sum anim. js_add sum (anim_weight anim)) (Fin 0) anims"

text \<open>
  The \<open>for\<close> loop over the definitions: \<open>rand\<close> is the running remainder, the
  result is \<open>chosenAnim\<close> (\<open>None\<close> when the loop ends without a \<open>break\<close>).
\<close>

fun walk :: "jsnum \<Rightarrow> idle_anim list \<Rightarrow> idle_anim option" where
  "walk rand [] = None"
| "walk rand (anim # anims) =
     (if js_le (js_sub rand (anim_weight anim)) (Fin 0) then Some anim
      else walk (js_sub rand (anim_weight anim)) anims)"

text \<open>
  The choice for a draw \<open>rand\<close>, with the fallback
  \<open>if (!chosenAnim) chosenAnim = this._idleAnimations[0]\<close>.  It is only
  called on a list that is not empty.
\<close>

definition chooseAnim :: "jsnum \<Rightarrow> idle_anim list \<Rightarrow> idle_anim" where
  "chooseAnim rand anims = (case walk rand anims of Some anim \<Rightarrow> anim | None \<Rightarrow> hd anims)"

text \<open>
  The assignments that end \<open>startIdleAnimation\<close>, once \<open>chosenAnim\<close> is
  known: the snapshot of the sheet name, the pattern and the direction, the
  switch to the idle sheet, and the frame count.
\<close>

definition enterIdle :: "idle_anim \<Rightarrow> game_character \<Rightarrow> game_character" where
  "enterIdle chosenAnim c =
     c\<lparr>isIdling := True,
       currentIdleAnim := Some chosenAnim,
       originalCharacterName := characterName c,
       originalPattern := pattern c,
       idleFacingDirection := direction c,
       characterName := name chosenAnim,
       pattern := startPattern chosenAnim,
       idleFrameCount := Fin 0,
       idleAnimLength :=
         js_mul (js_add (js_sub (endPattern chosenAnim) (startPattern chosenAnim)) (Fin 1))
           (Fin 15)\<rparr>"

text \<open>\<open>startIdleAnimation\<close>; \<open>u\<close> is the value of its \<open>Math.random()\<close>.\<close>

definition startIdleAnimation :: "jsnum \<Rightarrow> game_character \<Rightarrow> game_character" where
  "startIdleAnimation u c =
     (if idleAnimations c = [] then c
      else enterIdle
             (chooseAnim (js_mul u (totalWeight (idleAnimations c))) (idleAnimations c)) c)"

subsection \<open>Playback\<close>

text \<open>
  The pattern shown at frame \<open>n\<close> of a definition:
  \<open>startPattern + Math.floor(n / 15) % patternCount\<close>.
\<close>

definition framePattern :: "idle_anim \<Rightarrow> jsnum \<Rightarrow> jsnum" where
  "framePattern anim n =
     js_add (startPattern anim)
       (js_mod (js_floor (js_div n (Fin 15)))
          (js_add (js_sub (endPattern anim) (startPattern anim)) (Fin 1)))"

text \<open>
  \<open>updateIdleAnimationFrame\<close>.  Reading \<open>endPattern\<close> of a \<open>null\<close>
  \<open>_currentIdleAnim\<close> throws a TypeError, after the counter has been
  incremented.
\<close>

definition updateIdleAnimationFrame :: "game_character \<Rightarrow> js_error + game_character" where
  "updateIdleAnimationFrame c =
     (if js_ge (js_add (idleFrameCount c) (Fin 1)) (idleAnimLength c)
      then Inr (c\<lparr>idleFrameCount := js_add (idleFrameCount c) (Fin 1),
                  characterName := originalCharacterName c,
                  pattern := originalPattern c,
                  isIdling := False,
                  currentIdleAnim := None,
                  idleTimer := Fin 0\<rparr>)
      else (case currentIdleAnim c of
              None \<Rightarrow> Inl TypeError
            | Some anim \<Rightarrow>
                Inr (c\<lparr>idleFrameCount := js_add (idleFrameCount c) (Fin 1),
                       pattern := framePattern anim (js_add (idleFrameCount c) (Fin 1)),
                       direction := idleFacingDirection c\<rparr>)))"

subsection \<open>The state machine\<close>

text \<open>The tick length \<open>1/60\<close>, as the division computes it.\<close>

definition tick_length :: jsnum where
  "tick_length = js_div (Fin 1) (Fin 60)"

text \<open>\<open>updateIdle\<close>, called once per tick after the engine's own update.\<close>

definition updateIdle :: "config \<Rightarrow> tick_env \<Rightarrow> game_character \<Rightarrow> js_error + game_character" where
  "updateIdle cfg env c =
     (if isMoving env \<or> js_gt (waitCount env) (Fin 0)
      then Inr (c\<lparr>isIdling := False, idleTimer := Fin 0, currentIdleAnim := None\<rparr>)
      else if \<not> isIdling c
      then (if js_ge (js_add (idleTimer c) tick_length) (idleMinTime c)
            then (if js_gt (js_add (idleTimer c) tick_length) (idleMaxTime c)
                     \<or> js_lt (js_mul (roll_random env) (Fin 100)) (DEFAULT_PROB cfg)
                  then Inr (startIdleAnimation (select_random env)
                              (c\<lparr>idleTimer := js_add (idleTimer c) tick_length\<rparr>))
                  else Inr (c\<lparr>idleTimer := js_add (idleTimer c) tick_length\<rparr>))
            else Inr (c\<lparr>idleTimer := js_add (idleTimer c) tick_length\<rparr>))
      else (case currentIdleAnim c of
              None \<Rightarrow> Inr c
            | Some anim \<Rightarrow> updateIdleAnimationFrame c))"

subsection \<open>Ticks\<close>

text \<open>
  The engine calls \<open>update\<close>, and with it \<open>updateIdle\<close>, once per tick;
  \<open>run\<close> is a sequence of such calls, one per element of \<open>envs\<close>, stopped by
  the first exception.
\<close>

fun run :: "config \<Rightarrow> tick_env list \<Rightarrow> game_character \<Rightarrow> js_error + game_character" where
  "run cfg [] c = Inr c"
| "run cfg (env # envs) c =
     (case updateIdle cfg env c of
        Inl err \<Rightarrow> Inl err
      | Inr c' \<Rightarrow> run cfg envs c')"

text \<open>The character stands still and is not waiting.\<close>

definition stationary :: "tick_env \<Rightarrow> bool" where
  "stationary env = (\<not> (isMoving env \<or> js_gt (waitCount env) (Fin 0)))"

text \<open>
  What holds of a character from the moment an idle animation starts on a
  sheet \<open>N\<close> at pattern \<open>P\<close>, on every later tick without motion: while it
  is idling the snapshot is \<open>N\<close> and \<open>P\<close>, and while it is not the display
  is.
\<close>

definition snapshot_kept :: "string \<Rightarrow> jsnum \<Rightarrow> game_character \<Rightarrow> bool" where
  "snapshot_kept N P d =
     (if isIdling d
      then currentIdleAnim d \<noteq> None \<and> originalCharacterName d = N \<and> originalPattern d = P
      else currentIdleAnim d = None \<and> characterName d = N \<and> pattern d = P)"

text \<open>
  The values \<open>_idleTimer\<close> takes on the next \<open>n\<close> ticks of a character that
  stands still and does not start idling: \<open>1/60\<close> is added on each.
\<close>

fun timer_trace :: "nat \<Rightarrow> jsnum \<Rightarrow> jsnum list" where
  "timer_trace 0 t = []"
| "timer_trace (Suc n) t = js_add t tick_length # timer_trace n (js_add t tick_length)"

text \<open>Whether the character is idling after the given ticks.\<close>

definition idlingAfter :: "config \<Rightarrow> tick_env list \<Rightarrow> game_character \<Rightarrow> bool option" where
  "idlingAfter cfg envs c =
     (case run cfg envs c of Inl err \<Rightarrow> None | Inr c' \<Rightarrow> Some (isIdling c'))"

text \<open>
  The situation in which the probability alone decides whether the idle
  animation starts: a character with a definition stands still, is not idling,
  and its timer, with this tick added, has reached the minimum and does not
  exceed the maximum.
\<close>

definition probability_decides :: "tick_env \<Rightarrow> game_character \<Rightarrow> bool" where
  "probability_decides env c =
     (idleAnimations c \<noteq> [] \<and> stationary env \<and> \<not> isIdling c \<and>
      js_ge (js_add (idleTimer c) tick_length) (idleMinTime c) \<and>
      \<not> js_gt (js_add (idleTimer c) tick_length) (idleMaxTime c))"

text \<open>
  The values \<open>Math.random()\<close> can return: the binary64 values from 0 up to,
  but not including, 1.
\<close>

definition is_random :: "jsnum \<Rightarrow> bool" where
  "is_random x = (case x of Fin u \<Rightarrow> fl u = u \<and> 0 \<le> u \<and> u < 1 | _ \<Rightarrow> False)"

subsection \<open>Weighted selection as the specification words it\<close>





section \<open>Notetag parsing\<close>

text \<open>
  The note text is a sequence of code units below 256.  Of these, \<open>trim()\<close>
  and the class \<open>\s\<close> take the same seven as white space: TAB, LF, VT, FF, CR,
  SP and NBSP.
\<close>

definition is_space :: "char \<Rightarrow> bool" where
  "is_space ch = (of_char ch \<in> {9, 10, 11, 12, 13, 32, 160 :: nat})"

definition is_digit :: "char \<Rightarrow> bool" where
  "is_digit ch = (48 \<le> (of_char ch :: nat) \<and> (of_char ch :: nat) \<le> 57)"

text \<open>The class \<open>[0-9.]\<close>.\<close>

definition is_numch :: "char \<Rightarrow> bool" where
  "is_numch ch = (is_digit ch \<or> ch = CHR ''.'')"

text \<open>\<open>String.prototype.trim\<close>\<close>

definition trim :: "string \<Rightarrow> string" where
  "trim s = rev (dropWhile is_space (rev (dropWhile is_space s)))"

text \<open>\<open>note.split('\n')\<close>: the pieces between line feeds, at least one.\<close>

fun split_lines :: "string \<Rightarrow> string list" where
  "split_lines [] = [[]]"
| "split_lines (ch # s) =
     (if ch = CHR 0x0A then [] # split_lines s
      else (case split_lines s of
              [] \<Rightarrow> [[ch]]
            | line # lines \<Rightarrow> (ch # line) # lines))"

text \<open>
  Matching under the flag \<open>i\<close>: two code units match when their upper case
  forms agree.  \<open>upper_code\<close> is the code of the upper case form as far as
  the ASCII patterns of the plugin can tell: a small ASCII letter becomes the
  capital one, and no code unit from 128 on becomes an ASCII one.
\<close>

definition upper_code :: "char \<Rightarrow> nat" where
  "upper_code ch =
     (if 97 \<le> (of_char ch :: nat) \<and> (of_char ch :: nat) \<le> 122
      then of_char ch - 32 else of_char ch)"

text \<open>
  \<open>ci_strip pat s\<close> matches the literal \<open>pat\<close> at the start of \<open>s\<close> and gives
  what follows it.
\<close>

fun ci_strip :: "string \<Rightarrow> string \<Rightarrow> string option" where
  "ci_strip [] s = Some s"
| "ci_strip (p # pat) [] = None"
| "ci_strip (p # pat) (ch # s) =
     (if upper_code ch = upper_code p then ci_strip pat s else None)"

text \<open>
  An unanchored regular expression matches at the leftmost position where
  it matches at all; \<open>m\<close> is the match at one position.
\<close>

fun regex_search :: "(string \<Rightarrow> 'a option) \<Rightarrow> string \<Rightarrow> 'a option" where
  "regex_search m [] = m []"
| "regex_search m (ch # s) =
     (case m (ch # s) of Some r \<Rightarrow> Some r | None \<Rightarrow> regex_search m s)"

text \<open>
  \<open>/<IdleAnimMinTime:\s*([0-9.]+)>/i\<close> and its sibling for the maximum, at
  one position: the tag, white space, the longest run of \<open>[0-9.]\<close>, which
  must not be empty, and \<open>>\<close>.  The result is group 1.  A shorter run would
  be followed by a digit or a dot, never by \<open>>\<close>, so backtracking finds
  nothing more.
\<close>

definition match_time_at :: "string \<Rightarrow> string \<Rightarrow> string option" where
  "match_time_at tag s =
     (case ci_strip tag s of
        None \<Rightarrow> None
      | Some r \<Rightarrow>
          (if takeWhile is_numch (dropWhile is_space r) \<noteq> []
              \<and> take 1 (dropWhile is_numch (dropWhile is_space r)) = ''>''
           then Some (takeWhile is_numch (dropWhile is_space r))
           else None))"

text \<open>
  \<open>\s*([^,]+),\<close>: group 1 and the text after the comma.  The white space
  is taken first; group 1 then runs to the first comma.  When nothing but
  white space stands before that comma, \<open>\s*\<close> gives its last character
  back to group 1.
\<close>

definition match_name :: "string \<Rightarrow> (string \<times> string) option" where
  "match_name r =
     (if takeWhile (\<lambda>ch. ch \<noteq> CHR '','') (dropWhile is_space r) \<noteq> []
      then (case dropWhile (\<lambda>ch. ch \<noteq> CHR '','') (dropWhile is_space r) of
              [] \<Rightarrow> None
            | ch # t \<Rightarrow> Some (takeWhile (\<lambda>ch. ch \<noteq> CHR '','') (dropWhile is_space r), t))
      else (case dropWhile is_space r of
              [] \<Rightarrow> None
            | ch # t \<Rightarrow>
                (if takeWhile is_space r = [] then None
                 else Some ([last (takeWhile is_space r)], t))))"

text \<open>\<open>\s*(\d+)\<close>: the digits, not empty, and the text after them.\<close>

definition match_digits :: "string \<Rightarrow> (string \<times> string) option" where
  "match_digits r =
     (if takeWhile is_digit (dropWhile is_space r) = [] then None
      else Some (takeWhile is_digit (dropWhile is_space r),
                 dropWhile is_digit (dropWhile is_space r)))"

text \<open>
  \<open>(?:,\s*(\d+))?\<close>: group 4, or \<open>None\<close> when the group does not take
  part in the match.
\<close>

definition match_opt_prob :: "string \<Rightarrow> string option" where
  "match_opt_prob r =
     (case r of
        [] \<Rightarrow> None
      | ch # t \<Rightarrow> (if ch = CHR '','' then map_option fst (match_digits t) else None))"

text \<open>
  \<open>/<IdleAnim:\s*([^,]+),\s*(\d+),\s*(\d+)(?:,\s*(\d+))?/i\<close> at one
  position: groups 1 to 4.
\<close>

definition match_anim_at :: "string \<Rightarrow> (string \<times> string \<times> string \<times> string option) option" where
  "match_anim_at s =
     (case ci_strip ''<IdleAnim:'' s of
        None \<Rightarrow> None
      | Some r \<Rightarrow>
          (case match_name r of
             None \<Rightarrow> None
           | Some (g1, r1) \<Rightarrow>
               (case match_digits r1 of
                  None \<Rightarrow> None
                | Some (g2, r2) \<Rightarrow>
                    (case r2 of
                       [] \<Rightarrow> None
                     | ch # r3 \<Rightarrow>
                         (if ch \<noteq> CHR '','' then None
                          else (case match_digits r3 of
                                  None \<Rightarrow> None
                                | Some (g3, r4) \<Rightarrow> Some (g1, g2, g3, match_opt_prob r4)))))))"

text \<open>The value of a run of decimal digits.\<close>

definition digit_val :: "char \<Rightarrow> rat" where
  "digit_val ch = of_nat (of_char ch - 48)"

definition digits_val :: "string \<Rightarrow> rat" where
  "digits_val ds = foldl (\<lambda>n ch. 10 * n + digit_val ch) 0 ds"

text \<open>
  \<open>parseInt\<close> on a run of digits (radix 10): the binary64 value nearest to
  the number written.  The empty string, which is what \<open>RegExp.$4\<close> holds
  when group 4 took no part, gives NaN.
\<close>

definition parseInt :: "string \<Rightarrow> jsnum" where
  "parseInt ds = (if ds = [] then NaN else js_round (digits_val ds))"

text \<open>
  \<open>parseFloat\<close> on a run of \<open>[0-9.]\<close>: the longest prefix that is a decimal
  literal, which is digits, then possibly a dot and digits; the result is the
  binary64 value nearest to the number written.  Without a digit the result
  is NaN.
\<close>

definition parseFloat :: "string \<Rightarrow> jsnum" where
  "parseFloat s =
     (if take 1 (dropWhile is_digit s) = ''.''
      then (if takeWhile is_digit s = [] \<and> takeWhile is_digit (drop 1 (dropWhile is_digit s)) = []
            then NaN
            else js_round
                   (digits_val (takeWhile is_digit s
                                 @ takeWhile is_digit (drop 1 (dropWhile is_digit s)))
                    / 10 ^ length (takeWhile is_digit (drop 1 (dropWhile is_digit s)))))
      else (if takeWhile is_digit s = [] then NaN
            else js_round (digits_val (takeWhile is_digit s))))"

text \<open>
  What the loop of \<open>loadIdleNotetags\<close> has collected: \<open>idleAnims\<close>,
  \<open>minTime\<close> and \<open>maxTime\<close> (\<open>None\<close> is \<open>undefined\<close>).
\<close>

type_synonym notetags = "idle_anim list \<times> jsnum option \<times> jsnum option"

text \<open>The body of the loop, for one line.\<close>

definition parse_line :: "string \<Rightarrow> notetags \<Rightarrow> notetags" where
  "parse_line line acc =
     (case regex_search (match_time_at ''<IdleAnimMinTime:'') (trim line) of
        Some g \<Rightarrow> (fst acc, Some (parseFloat g), snd (snd acc))
      | None \<Rightarrow>
          (case regex_search (match_time_at ''<IdleAnimMaxTime:'') (trim line) of
             Some g \<Rightarrow> (fst acc, fst (snd acc), Some (parseFloat g))
           | None \<Rightarrow>
               (case regex_search match_anim_at (trim line) of
                  Some (g1, g2, g3, g4) \<Rightarrow>
                    (fst acc @
                       [\<lparr>name = trim g1,
                         startPattern = parseInt g2,
                         endPattern = parseInt g3,
                         probability =
                           js_or (parseInt (case g4 of None \<Rightarrow> [] | Some ds \<Rightarrow> ds)) (Fin 100)\<rparr>],
                     fst (snd acc), snd (snd acc))
                | None \<Rightarrow> acc)))"

definition parse_note :: "string \<Rightarrow> notetags" where
  "parse_note note = foldl (\<lambda>acc line. parse_line line acc) ([], None, None) (split_lines note)"

text \<open>\<open>loadIdleNotetags\<close>; the empty text is falsy and returns at once.\<close>

definition loadIdleNotetags :: "string \<Rightarrow> game_character \<Rightarrow> game_character" where
  "loadIdleNotetags note c =
     (if note = [] then c
      else setCharacterIdleData (fst (parse_note note)) (fst (snd (parse_note note)))
             (snd (snd (parse_note note))) c)"

section \<open>The scenario of the specification\<close>

text \<open>
  One definition \<open>{A, 0, 2, 100}\<close>, a minimum of one second, a maximum of two
  and an idle probability of 100.  \<open>engine_char\<close> is a character as the
  engine sets it up, standing at pattern 1 and facing down; \<open>scenario_char\<close>
  is that character after \<open>initMembers\<close> and \<open>setCharacterIdleData\<close>.
\<close>

definition animA :: idle_anim where
  "animA = \<lparr>name = ''A'', startPattern = Fin 0, endPattern = Fin 2, probability = Fin 100\<rparr>"

definition scenario_cfg :: config where
  "scenario_cfg = \<lparr>DEFAULT_MIN_IDLE = Fin 1, DEFAULT_MAX_IDLE = Fin 2, DEFAULT_PROB = Fin 100\<rparr>"

definition engine_char :: game_character where
  "engine_char =
     \<lparr>idleAnimations = [], isIdling = False, idleTimer = NaN, idleMinTime = NaN,
      idleMaxTime = NaN, currentIdleAnim = None, originalPattern = NaN,
      originalCharacterName = [], idleFacingDirection = 0, idleFrameCount = NaN,
      idleAnimLength = NaN, characterName = ''Actor1'', pattern = Fin 1, direction = 2\<rparr>"

definition scenario_char :: game_character where
  "scenario_char =
     setCharacterIdleData [animA] None None (initMembers scenario_cfg engine_char)"

text \<open>
  The scenario's character at the moment its idle animation starts, on the
  60th tick of standing still.
\<close>

definition scenario_idle :: game_character where
  "scenario_idle =
     enterIdle animA (scenario_char\<lparr>idleTimer := Fin (2251799813685251 / 2251799813685248)\<rparr>)"

text \<open>A tick on which the character stands still, with its two draws.\<close>

definition still :: "jsnum \<Rightarrow> jsnum \<Rightarrow> tick_env" where
  "still r s = \<lparr>isMoving = False, waitCount = Fin 0, roll_random = r, select_random = s\<rparr>"

text \<open>A tick on which the character moves.\<close>

definition walking :: tick_env where
  "walking = \<lparr>isMoving = True, waitCount = Fin 0, roll_random = Fin 0, select_random = Fin 0\<rparr>"




section \<open>Evaluating the rounding\<close>

text \<open>
  Powers of two, the exponent search and the rounding, as far as the proofs
  below need them: once the exponent \<open>k\<close> of a value is known, its rounding is
  arithmetic.
\<close>

lemma pow2_pos: "0 < pow2 k"
  by (simp add: pow2_def)

lemma pow2_Suc: "pow2 (k + 1) = 2 * pow2 k"
proof (cases "0 \<le> k")
  case True
  then show ?thesis by (simp add: pow2_def nat_add_distrib)
next
  case False
  then have k: "k < 0" by simp
  show ?thesis
  proof (cases "k = -1")
    case True
    then show ?thesis by (simp add: pow2_def)
  next
    case False
    with k have "k + 1 < 0" by simp
    moreover have "nat (- k) = Suc (nat (- (k + 1)))" using k by simp
    ultimately show ?thesis using k by (simp add: pow2_def)
  qed
qed

lemma pow2_pred: "pow2 (k - 1) = pow2 k / 2"
  using pow2_Suc [of "k - 1"] by simp

lemma pow2_zero: "pow2 0 = 1"
  by (simp add: pow2_def)

lemma pow2_mono: "j \<le> k \<Longrightarrow> pow2 j \<le> pow2 k"
proof -
  have "pow2 j \<le> pow2 (j + int n)" for n
  proof (induction n)
    case 0
    then show ?case by simp
  next
    case (Suc n)
    have "j + int (Suc n) = j + int n + 1" by simp
    then have "pow2 (j + int (Suc n)) = 2 * pow2 (j + int n)"
      by (simp only: pow2_Suc)
    with Suc pow2_pos [of "j + int n"] show ?case by simp
  qed
  from this [of "nat (k - j)"] show "j \<le> k \<Longrightarrow> pow2 j \<le> pow2 k" by simp
qed

lemma ilog2_eq:
  "pow2 k \<le> q \<Longrightarrow> q < pow2 (k + 1) \<Longrightarrow> \<bar>k\<bar> \<le> int n \<Longrightarrow> ilog2 n q = k"
proof (induction n arbitrary: q k)
  case 0
  then show ?case by simp
next
  case (Suc n)
  show ?case
  proof (cases "2 \<le> q")
    case True
    have "1 \<le> k"
    proof (rule ccontr)
      assume "\<not> 1 \<le> k"
      then have "k + 1 \<le> 1" by simp
      then have "pow2 (k + 1) \<le> pow2 1" by (rule pow2_mono)
      with Suc.prems(2) True show False by (simp add: pow2_def)
    qed
    moreover have "pow2 (k - 1) \<le> q / 2" "q / 2 < pow2 (k - 1 + 1)"
      using Suc.prems by (simp_all add: pow2_pred pow2_Suc)
    ultimately have "ilog2 n (q / 2) = k - 1"
      using Suc.prems(3) by (intro Suc.IH) simp_all
    with True show ?thesis by simp
  next
    case False
    show ?thesis
    proof (cases "q < 1")
      case True
      have "k \<le> -1"
      proof (rule ccontr)
        assume "\<not> k \<le> -1"
        then have "0 \<le> k" by simp
        then have "pow2 0 \<le> pow2 k" by (rule pow2_mono)
        with Suc.prems(1) True show False by (simp add: pow2_zero)
      qed
      moreover have "pow2 (k + 1) \<le> q * 2"
        using Suc.prems(1) by (simp add: pow2_Suc)
      moreover have "q * 2 < pow2 (k + 1 + 1)"
        unfolding pow2_Suc using Suc.prems(2) by (simp add: pow2_Suc)
      ultimately have "ilog2 n (q * 2) = k + 1"
        using Suc.prems(3) by (intro Suc.IH) simp_all
      with True False show ?thesis by simp
    next
      case q1: False
      have "k \<le> 0"
      proof (rule ccontr)
        assume "\<not> k \<le> 0"
        then have "1 \<le> k" by simp
        then have "pow2 1 \<le> pow2 k" by (rule pow2_mono)
        with Suc.prems(1) False show False by (simp add: pow2_def)
      qed
      moreover have "0 \<le> k"
      proof (rule ccontr)
        assume "\<not> 0 \<le> k"
        then have "k + 1 \<le> 0" by simp
        then have "pow2 (k + 1) \<le> pow2 0" by (rule pow2_mono)
        with Suc.prems(2) q1 show False by (simp add: pow2_zero)
      qed
      ultimately show ?thesis using False q1 by simp
    qed
  qed
qed

lemma fl_eval:
  assumes "pow2 k \<le> \<bar>q\<bar>" and "\<bar>q\<bar> < pow2 (k + 1)" and "- 1022 \<le> k" and "k \<le> 1100"
  shows "fl q = sgn q * of_int (round_even (\<bar>q\<bar> / pow2 (k - 52))) * pow2 (k - 52)"
proof -
  have "ilog2 1100 \<bar>q\<bar> = k"
    using assms by (intro ilog2_eq) simp_all
  moreover have "q \<noteq> 0"
    using assms(1) pow2_pos [of k] by auto
  ultimately show ?thesis
    using assms(3) by (simp add: fl_def ulp_exp_def)
qed

lemma js_round_eval:
  assumes "pow2 k \<le> \<bar>q\<bar>" and "\<bar>q\<bar> < pow2 (k + 1)" and "- 1022 \<le> k" and "k \<le> 1000"
    and "sgn q * of_int (round_even (\<bar>q\<bar> / pow2 (k - 52))) * pow2 (k - 52) = r"
  shows "js_round q = Fin r"
proof -
  have r: "fl q = r"
    using fl_eval [OF assms(1,2,3)] assms(4,5) by simp
  have "round_even x \<le> \<lfloor>x\<rfloor> + 1" for x
    by (simp add: round_even_def)
  then have "(of_int (round_even x) :: rat) \<le> of_int (\<lfloor>x\<rfloor> + 1)" for x
    by (simp only: of_int_le_iff)
  moreover have "(of_int (\<lfloor>x\<rfloor> + 1) :: rat) \<le> x + 1" for x :: rat
    by simp
  ultimately have "of_int (round_even x) \<le> x + 1" for x :: rat
    by (rule order_trans)
  from this [of "\<bar>q\<bar> / pow2 (k - 52)"]
  have "of_int (round_even (\<bar>q\<bar> / pow2 (k - 52))) * pow2 (k - 52) \<le> \<bar>q\<bar> + pow2 (k - 52)"
    using pow2_pos [of "k - 52"] by (simp add: field_simps)
  also have "\<dots> < pow2 (k + 1) + pow2 (k + 1)"
    using assms(2) pow2_mono [of "k - 52" "k + 1"] by simp
  also have "\<dots> = pow2 (k + 2)"
    using pow2_Suc [of "k + 1"] by (simp add: add.commute)
  also have "\<dots> \<le> pow2 1024"
    using assms(4) by (intro pow2_mono) simp
  finally have "of_int (round_even (\<bar>q\<bar> / pow2 (k - 52))) * pow2 (k - 52) < 2 ^ 1024"
    by (simp add: pow2_def)
  moreover have "0 \<le> of_int (round_even (\<bar>q\<bar> / pow2 (k - 52))) * pow2 (k - 52)"
  proof -
    have "0 \<le> \<bar>q\<bar> / pow2 (k - 52)" using pow2_pos [of "k - 52"] by simp
    then have "0 \<le> round_even (\<bar>q\<bar> / pow2 (k - 52))"
      by (simp add: round_even_def)
    then show ?thesis using pow2_pos [of "k - 52"] by simp
  qed
  ultimately have "\<bar>r\<bar> < 2 ^ 1024"
    using assms(5) by (auto simp add: abs_mult abs_sgn_eq split: if_splits)
  with r show ?thesis by (simp add: js_round_def)
qed

lemma js_round_zero: "js_round 0 = Fin 0"
  by (simp add: js_round_def fl_def)

lemma floor_numeral_div: "\<lfloor>numeral a / numeral b :: rat\<rfloor> = numeral a div numeral b"
  using floor_divide_of_int_eq [of "numeral a" "numeral b", where ?'a = rat] by simp

lemma round_even_of_int: "round_even (of_int m) = m"
  by (simp add: round_even_def)

lemma js_round_nat:
  assumes "n \<le> 2 ^ 53"
  shows "js_round (of_nat n) = Fin (of_nat n)"
proof (cases "n = 0")
  case True
  then show ?thesis by (simp add: js_round_zero)
next
  case False
  then have "1 \<le> n" by simp
  with ex_power_ivl1 [of 2 n] obtain k where k: "2 ^ k \<le> n" "n < 2 ^ (k + 1)"
    by auto
  have "(2::nat) ^ k \<le> 2 ^ 53"
    using k(1) assms by (rule order_trans)
  with power_le_imp_le_exp [of "2::nat" k 53] have k53: "k \<le> 53"
    by fastforce
  have abs: "\<bar>of_nat n :: rat\<bar> = of_nat n" and sgn: "sgn (of_nat n :: rat) = 1"
    using False by simp_all
  have lo: "pow2 (int k) \<le> \<bar>of_nat n\<bar>"
  proof -
    have "(of_nat (2 ^ k) :: rat) \<le> of_nat n"
      using k(1) by (simp only: of_nat_le_iff)
    then show ?thesis by (simp add: pow2_def)
  qed
  have hi: "\<bar>of_nat n\<bar> < pow2 (int k + 1)"
  proof -
    have "(of_nat n :: rat) < of_nat (2 ^ (k + 1))"
      using k(2) by (simp only: of_nat_less_iff)
    moreover have "nat (int k + 1) = k + 1" by simp
    ultimately show ?thesis by (simp add: pow2_def)
  qed
  have val: "sgn (of_nat n :: rat) * of_int (round_even (\<bar>of_nat n\<bar> / pow2 (int k - 52)))
               * pow2 (int k - 52) = of_nat n"
  proof (cases "k \<le> 52")
    case True
    then have p: "pow2 (int k - 52) = 1 / 2 ^ (52 - k)"
    proof (cases "k = 52")
      case True
      then show ?thesis by (simp add: pow2_def)
    next
      case False
      with True have "int k - 52 < 0" "nat (52 - int k) = 52 - k" by simp_all
      then show ?thesis by (simp add: pow2_def)
    qed
    have "(of_nat n :: rat) / (1 / 2 ^ (52 - k)) = of_int (int (n * 2 ^ (52 - k)))"
      by simp
    then have re: "round_even (of_nat n / (1 / 2 ^ (52 - k))) = int (n * 2 ^ (52 - k))"
      by (simp only: round_even_of_int)
    show ?thesis
      unfolding sgn abs p re by simp
  next
    case False
    with k53 have k: "k = 53" by simp
    with \<open>2 ^ k \<le> n\<close> assms have n: "n = 2 ^ 53" by simp
    have p: "pow2 (int k - 52) = 2"
      by (simp add: k pow2_def)
    have "(of_nat n :: rat) / 2 = of_int (2 ^ 52)"
      by (simp add: n)
    then have re: "round_even (of_nat n / 2) = 2 ^ 52"
      by (simp only: round_even_of_int)
    show ?thesis
      unfolding sgn abs p re by (simp add: n)
  qed
  show ?thesis
    by (rule js_round_eval [where k = "int k", OF lo hi _ _ val]) (use k53 in simp_all)
qed

lemma js_add_one_nat:
  "n < 2 ^ 53 \<Longrightarrow> js_add (Fin (of_nat n)) (Fin 1) = Fin (of_nat (Suc n))"
  using js_round_nat [of "Suc n"] by (simp add: add.commute)

lemma fl_minus: "fl (- q) = - fl q"
  by (simp add: fl_def ulp_exp_def sgn_minus)

lemma fl_zero: "fl 0 = 0"
  by (simp add: fl_def)

lemma js_round_minus: "js_round (- q) = js_neg (js_round q)"
  by (cases "q = 0") (auto simp add: js_round_def fl_minus fl_zero)

lemma js_round_one: "js_round 1 = Fin 1"
  using js_round_nat [of 1] by simp

lemma js_round_numeral:
  "numeral w \<le> (2 ^ 53 :: nat) \<Longrightarrow> js_round (numeral w) = Fin (numeral w)"
  using js_round_nat [of "numeral w"] by simp

lemma js_round_neg_numeral:
  "numeral w \<le> (2 ^ 53 :: nat) \<Longrightarrow> js_round (- numeral w) = Fin (- numeral w)"
  by (simp add: js_round_minus js_round_numeral)

lemmas js_round_small = js_round_zero js_round_one js_round_numeral js_round_neg_numeral

lemma round_even_upper: "of_int (round_even x) \<le> x + 1 / 2"
proof -
  define d where "d = x - of_int \<lfloor>x\<rfloor>"
  have x: "x = of_int \<lfloor>x\<rfloor> + d" and d: "0 \<le> d"
    by (simp_all add: d_def)
  consider "d < 1 / 2" | "1 / 2 < d" | "d = 1 / 2"
    by linarith
  then show ?thesis
  proof cases
    case 1
    then have "round_even x = \<lfloor>x\<rfloor>"
      by (simp add: round_even_def d_def)
    with x d show ?thesis by linarith
  next
    case 2
    then have "round_even x = \<lfloor>x\<rfloor> + 1"
      by (simp add: round_even_def d_def)
    then have "of_int (round_even x) = of_int \<lfloor>x\<rfloor> + (1 :: rat)"
      by simp
    with x 2 show ?thesis by linarith
  next
    case 3
    then have "round_even x = \<lfloor>x\<rfloor> \<or> round_even x = \<lfloor>x\<rfloor> + 1"
      by (simp add: round_even_def d_def)
    then have "of_int (round_even x) \<le> of_int \<lfloor>x\<rfloor> + (1 :: rat)"
      by auto
    with x 3 show ?thesis by linarith
  qed
qed

lemma round_even_nonneg: "0 \<le> x \<Longrightarrow> 0 \<le> round_even x"
  by (simp add: round_even_def)

lemma round_even_below:
  assumes "x < of_int n - 1 / 2"
  shows "round_even x \<le> n - 1"
proof -
  have "(of_int (round_even x) :: rat) < of_int n"
    using round_even_upper [of x] assms by simp
  then show ?thesis
    by simp
qed

lemma ilog2_upper: "0 \<le> k \<Longrightarrow> q < pow2 (k + 1) \<Longrightarrow> ilog2 n q \<le> k"
proof (induction n arbitrary: q k)
  case 0
  then show ?case by simp
next
  case (Suc n)
  show ?case
  proof (cases "2 \<le> q")
    case True
    have "1 \<le> k"
    proof (rule ccontr)
      assume "\<not> 1 \<le> k"
      with Suc.prems(1) have "k = 0" by simp
      with Suc.prems(2) True show False by (simp add: pow2_def)
    qed
    moreover have "q / 2 < pow2 (k - 1 + 1)"
      using Suc.prems(2) by (simp add: pow2_Suc)
    ultimately have "ilog2 n (q / 2) \<le> k - 1"
      by (intro Suc.IH) simp_all
    with True show ?thesis by simp
  next
    case False
    show ?thesis
    proof (cases "q < 1")
      case True
      have "pow2 1 \<le> pow2 (k + 1 + 1)"
        using Suc.prems(1) by (intro pow2_mono) simp
      then have "q * 2 < pow2 (k + 1 + 1)"
        using True by (simp add: pow2_def)
      then have "ilog2 n (q * 2) \<le> k + 1"
        using Suc.prems(1) by (intro Suc.IH) simp_all
      with True False show ?thesis by simp
    next
      case q1: False
      with False Suc.prems(1) show ?thesis by simp
    qed
  qed
qed

lemma double_below_one:
  assumes "fl u = u" and "0 < u" and "u < 1"
  shows "u \<le> 1 - 1 / 2 ^ 53"
proof (cases "u < 1 / 2")
  case True
  then show ?thesis by simp
next
  case False
  then have "pow2 (- 1) \<le> u" "u < pow2 (- 1 + 1)"
    using assms(3) by (simp_all add: pow2_def)
  then have "ilog2 1100 u = - 1"
    by (intro ilog2_eq) simp_all
  then have e: "ulp_exp u = - 53"
    using assms(2) by (simp add: ulp_exp_def)
  define m where "m = round_even (u * 2 ^ 53)"
  have u: "u = of_int m / 2 ^ 53"
    using assms(1,2) by (simp add: fl_def e pow2_def m_def)
  with assms(3) have "(of_int m :: rat) < of_int (2 ^ 53)"
    by (simp add: field_simps)
  then have "m \<le> 2 ^ 53 - 1"
    by (simp only: of_int_less_iff)
  then have "(of_int m :: rat) \<le> of_int (2 ^ 53 - 1)"
    by (simp only: of_int_le_iff)
  then show ?thesis
    by (simp add: u field_simps)
qed

lemma roll_range:
  assumes "fl u = u" and "0 \<le> u" and "u < 1"
  shows "\<exists>r. js_mul (Fin u) (Fin 100) = Fin r \<and> 0 \<le> r \<and> r < 100"
proof (cases "u = 0")
  case True
  then show ?thesis by (simp add: js_round_zero)
next
  case False
  define q where "q = u * 100"
  have q: "0 < q" "q \<le> 100 - 100 / 2 ^ 53"
    using False assms(2) double_below_one [OF assms(1) _ assms(3)] by (simp_all add: q_def)
  define e where "e = ulp_exp q"
  define m where "m = round_even (q / pow2 e)"
  have fl: "fl q = of_int m * pow2 e"
    using q(1) by (simp add: fl_def e_def m_def)
  have m0: "0 \<le> m"
    unfolding m_def using q(1) pow2_pos [of e] by (intro round_even_nonneg) simp
  have "of_int m * pow2 e < 100"
  proof (cases "q < 64")
    case True
    then have "ilog2 1100 q \<le> 5"
      by (intro ilog2_upper) (simp_all add: pow2_def)
    then have "e \<le> - 47"
      using q(1) by (simp add: e_def ulp_exp_def)
    then have "pow2 e \<le> pow2 (- 47)"
      by (rule pow2_mono)
    then have p: "pow2 e \<le> 1"
      by (simp add: pow2_def)
    have "of_int m \<le> q / pow2 e + 1 / 2"
      unfolding m_def by (rule round_even_upper)
    then have "of_int m * pow2 e \<le> (q / pow2 e + 1 / 2) * pow2 e"
      using pow2_pos [of e] by (simp only: mult_le_cancel_right_pos)
    also have "\<dots> = q + pow2 e / 2"
      using pow2_pos [of e] by (simp add: field_simps)
    finally show ?thesis
      using True p by simp
  next
    case False
    then have "pow2 6 \<le> q" "q < pow2 (6 + 1)"
      using q(2) by (simp_all add: pow2_def)
    then have "ilog2 1100 q = 6"
      by (intro ilog2_eq) simp_all
    then have e: "e = - 46"
      using q(1) by (simp add: e_def ulp_exp_def)
    have "q / pow2 e < of_int (100 * 2 ^ 46) - 1 / 2"
      using q(2) by (simp add: e pow2_def)
    then have "m \<le> 100 * 2 ^ 46 - 1"
      unfolding m_def by (rule round_even_below)
    then have "(of_int m :: rat) \<le> of_int (100 * 2 ^ 46 - 1)"
      by (simp only: of_int_le_iff)
    then show ?thesis
      by (simp add: e pow2_def)
  qed
  moreover have "0 \<le> of_int m * pow2 e"
    using m0 pow2_pos [of e] by simp
  ultimately have "js_round q = Fin (of_int m * pow2 e)" "0 \<le> of_int m * pow2 e"
    "of_int m * pow2 e < 100"
    by (simp_all add: js_round_def fl)
  then show ?thesis
    by (auto simp add: q_def)
qed

lemma fl_half: "fl (1 / 2) = 1 / 2"
  using fl_eval [of "- 1" "1 / 2"] by (simp add: pow2_def round_even_def floor_numeral_div)

lemma is_random_half: "is_random (Fin (1 / 2))"
  by (simp add: is_random_def fl_half)

lemma is_random_roll:
  assumes "is_random x"
  shows "js_ge (js_mul x (Fin 100)) (Fin 0)" and "js_lt (js_mul x (Fin 100)) (Fin 100)"
proof -
  from assms obtain u where u: "x = Fin u" "fl u = u" "0 \<le> u" "u < 1"
    by (cases x) (auto simp add: is_random_def)
  from roll_range [OF u(2,3,4)] u(1)
  show "js_ge (js_mul x (Fin 100)) (Fin 0)" and "js_lt (js_mul x (Fin 100)) (Fin 100)"
    by (auto simp add: js_ge_def)
qed

section \<open>Comparisons and the tick length\<close>

lemma js_ge_gt_trans: "js_ge t mn \<Longrightarrow> js_gt mn mx \<Longrightarrow> js_gt t mx"
  unfolding js_ge_def js_gt_def
  by (cases t; cases mn; cases mx) auto

lemma js_round_sixtieth: "js_round (1 / 60) = Fin (4803839602528529 / 288230376151711744)"
  by (rule js_round_eval [where k = "- 6"]) (simp_all add: pow2_def round_even_def floor_numeral_div)

lemma tick_length_val: "tick_length = Fin (4803839602528529 / 288230376151711744)"
  by (simp add: tick_length_def js_round_sixtieth)

lemma js_round_one_tick: "js_round (1 + 4803839602528529 / 288230376151711744) = Fin (1144664905290001 / 1125899906842624)"
  by (rule js_round_eval [where k = "0"]) (simp_all add: pow2_def round_even_def floor_numeral_div)

lemma timer_one_tick: "js_add (Fin 1) tick_length = Fin (1144664905290001 / 1125899906842624)"
  by (simp only: tick_length_val js_add.simps js_round_one_tick)

lemma js_round_two_ticks: "js_round (2 + 4803839602528529 / 288230376151711744) = Fin (2270564812132625 / 1125899906842624)"
  by (rule js_round_eval [where k = "1"]) (simp_all add: pow2_def round_even_def floor_numeral_div)

lemma timer_two_tick: "js_add (Fin 2) tick_length = Fin (2270564812132625 / 1125899906842624)"
  by (simp only: tick_length_val js_add.simps js_round_two_ticks)

section \<open>The trigger\<close>

lemma startIdleAnimation_isIdling:
  "idleAnimations c \<noteq> [] \<Longrightarrow> isIdling (startIdleAnimation u c)"
  by (simp add: startIdleAnimation_def enterIdle_def)

lemma scenario_char_fields:
  "idleAnimations scenario_char = [animA]"
  "isIdling scenario_char = False"
  "idleTimer scenario_char = Fin 0"
  "idleMinTime scenario_char = Fin 1"
  "idleMaxTime scenario_char = Fin 2"
  "currentIdleAnim scenario_char = None"
  "characterName scenario_char = ''Actor1''"
  "pattern scenario_char = Fin 1"
  "direction scenario_char = 2"
  by (simp_all add: scenario_char_def setCharacterIdleData_def initMembers_def engine_char_def
      scenario_cfg_def)

lemma still_fields:
  "isMoving (still r s) = False"
  "waitCount (still r s) = Fin 0"
  "roll_random (still r s) = r"
  "select_random (still r s) = s"
  "stationary (still r s)"
  by (simp_all add: still_def stationary_def js_gt_def)

text \<open>
  Claim C5.  On a tick on which the character is moving or waiting,
  \<open>updateIdle\<close> returns the character with \<open>_idleTimer\<close> at zero, \<open>_isIdling\<close>
  false and \<open>_currentIdleAnim\<close> cleared, and with every other field as it
  was: no other transition runs, and the sheet name and the pattern are not
  reverted, whether or not an idle animation was playing.
\<close>

theorem updateIdle_motion_reset:
  assumes "isMoving env \<or> js_gt (waitCount env) (Fin 0)"
  shows "updateIdle cfg env c =
           Inr (c\<lparr>isIdling := False, idleTimer := Fin 0, currentIdleAnim := None\<rparr>)"
  using assms by (simp add: updateIdle_def)

text \<open>
  The scenario's character, interrupted just after its idle animation has
  started: the idle sheet \<open>A\<close> and its pattern stay on display.
\<close>

theorem updateIdle_motion_reset_witness:
  "updateIdle scenario_cfg walking (enterIdle animA scenario_char) =
     Inr ((enterIdle animA scenario_char)
            \<lparr>isIdling := False, idleTimer := Fin 0, currentIdleAnim := None\<rparr>)
   \<and> characterName (enterIdle animA scenario_char) = ''A''
   \<and> characterName scenario_char = ''Actor1''"
  using updateIdle_motion_reset [of walking scenario_cfg "enterIdle animA scenario_char"]
  by (simp add: walking_def enterIdle_def scenario_char_fields animA_def)

text \<open>
  Claim C1.  For a character with at least one definition that stands still
  and is not idling, on a tick on which the accumulated \<open>_idleTimer\<close> has
  reached \<open>_idleMinTime\<close>: \<open>updateIdle\<close> starts the idle animation if and
  only if the timer exceeds \<open>_idleMaxTime\<close> or the roll
  \<open>Math.random() * 100\<close> is below \<open>DEFAULT_PROB\<close>.  The weights of the
  definitions do not enter: with any other weights the decision is the same.
  The roll lies in \<open>[0, 100)\<close> whenever the draw is a value \<open>Math.random()\<close>
  can return.
\<close>

theorem updateIdle_trigger_decision:
  assumes "idleAnimations c \<noteq> []"
    and "\<not> isMoving env" and "\<not> js_gt (waitCount env) (Fin 0)"
    and "\<not> isIdling c"
    and "js_ge (js_add (idleTimer c) tick_length) (idleMinTime c)"
  shows "\<exists>c'. updateIdle cfg env c = Inr c' \<and>
           (isIdling c' \<longleftrightarrow>
              js_gt (js_add (idleTimer c) tick_length) (idleMaxTime c)
              \<or> js_lt (js_mul (roll_random env) (Fin 100)) (DEFAULT_PROB cfg)) \<and>
           (\<forall>f. \<exists>c''.
              updateIdle cfg env
                (c\<lparr>idleAnimations := map (\<lambda>a. a\<lparr>probability := f a\<rparr>) (idleAnimations c)\<rparr>)
                = Inr c'' \<and> isIdling c'' = isIdling c') \<and>
           (is_random (roll_random env) \<longrightarrow>
              js_ge (js_mul (roll_random env) (Fin 100)) (Fin 0) \<and>
              js_lt (js_mul (roll_random env) (Fin 100)) (Fin 100))"
  using assms is_random_roll [of "roll_random env"]
  by (simp add: updateIdle_def startIdleAnimation_isIdling)

text \<open>
  The scenario's character one second into its wait, under a probability of
  100: the timer is within the maximum, and a roll of 50 starts the animation.
\<close>

theorem updateIdle_trigger_decision_witness:
  "(\<exists>c'. updateIdle scenario_cfg (still (Fin (1 / 2)) (Fin 0))
            (scenario_char\<lparr>idleTimer := Fin 1\<rparr>) = Inr c' \<and> isIdling c')
   \<and> js_mul (Fin (1 / 2)) (Fin 100) = Fin 50
   \<and> is_random (Fin (1 / 2))
   \<and> \<not> js_gt (js_add (Fin 1) tick_length) (idleMaxTime scenario_char)"
proof -
  have ge: "js_ge (js_add (idleTimer (scenario_char\<lparr>idleTimer := Fin 1\<rparr>)) tick_length)
              (idleMinTime (scenario_char\<lparr>idleTimer := Fin 1\<rparr>))"
    by (simp add: scenario_char_fields timer_one_tick js_ge_def)
  have "js_mul (Fin (1 / 2)) (Fin 100) = Fin 50"
    by (simp add: js_round_small)
  moreover have "\<not> js_gt (js_add (Fin 1) tick_length) (idleMaxTime scenario_char)"
    by (simp add: scenario_char_fields timer_one_tick js_gt_def)
  ultimately show ?thesis
    using updateIdle_trigger_decision
      [of "scenario_char\<lparr>idleTimer := Fin 1\<rparr>" "still (Fin (1 / 2)) (Fin 0)" scenario_cfg, OF _ _ _ _ ge]
    by (auto simp add: scenario_char_fields still_fields js_gt_def scenario_cfg_def
        is_random_half)
qed

text \<open>
  Claim C10.  For a character with at least one definition whose
  \<open>_idleMinTime\<close> is above its \<open>_idleMaxTime\<close>, standing still and not
  idling: \<open>updateIdle\<close> starts the idle animation exactly when the accumulated
  timer has reached \<open>_idleMinTime\<close>, so on the first such tick, and the
  outcome is the same for every roll and every configured probability.
\<close>

theorem updateIdle_min_above_max:
  assumes "js_gt (idleMinTime c) (idleMaxTime c)"
    and "idleAnimations c \<noteq> []"
    and "\<not> isMoving env" and "\<not> js_gt (waitCount env) (Fin 0)"
    and "\<not> isIdling c"
  shows "\<exists>c'. updateIdle cfg env c = Inr c' \<and>
           (isIdling c' \<longleftrightarrow> js_ge (js_add (idleTimer c) tick_length) (idleMinTime c)) \<and>
           (\<forall>cfg' r. updateIdle cfg' (env\<lparr>roll_random := r\<rparr>) c = Inr c')"
proof (cases "js_ge (js_add (idleTimer c) tick_length) (idleMinTime c)")
  case True
  then have "js_gt (js_add (idleTimer c) tick_length) (idleMaxTime c)"
    using assms(1) by (rule js_ge_gt_trans)
  with True assms show ?thesis
    by (simp add: updateIdle_def startIdleAnimation_isIdling)
next
  case False
  with assms show ?thesis
    by (simp add: updateIdle_def)
qed

text \<open>
  The scenario's character with a minimum of two seconds and a maximum of
  one, two seconds into its wait, under a probability of zero.
\<close>

theorem updateIdle_min_above_max_witness:
  "(\<exists>c'. updateIdle (scenario_cfg\<lparr>DEFAULT_PROB := Fin 0\<rparr>) (still (Fin (1 / 2)) (Fin 0))
            (scenario_char\<lparr>idleMinTime := Fin 2, idleMaxTime := Fin 1, idleTimer := Fin 2\<rparr>)
          = Inr c' \<and> isIdling c')
   \<and> js_gt (Fin 2) (Fin 1)"
proof -
  let ?c = "scenario_char\<lparr>idleMinTime := Fin 2, idleMaxTime := Fin 1, idleTimer := Fin 2\<rparr>"
  have gt: "js_gt (idleMinTime ?c) (idleMaxTime ?c)"
    by (simp add: js_gt_def)
  show ?thesis
    using updateIdle_min_above_max
      [of ?c "still (Fin (1 / 2)) (Fin 0)" "scenario_cfg\<lparr>DEFAULT_PROB := Fin 0\<rparr>", OF gt]
    by (auto simp add: scenario_char_fields still_fields js_gt_def js_ge_def timer_two_tick)
qed

section \<open>Runs of ticks\<close>

lemma run_append:
  "run cfg (es @ fs) c = (case run cfg es c of Inl err \<Rightarrow> Inl err | Inr c' \<Rightarrow> run cfg fs c')"
  by (induction es arbitrary: c) (auto split: sum.splits)

lemma startIdleAnimation_snapshot:
  "idleAnimations c \<noteq> [] \<Longrightarrow>
     snapshot_kept (characterName c) (pattern c) (startIdleAnimation u c)"
  by (simp add: snapshot_kept_def startIdleAnimation_def enterIdle_def)

lemma updateIdle_snapshot:
  assumes "stationary env" and "snapshot_kept N P d"
  shows "\<exists>d'. updateIdle cfg env d = Inr d' \<and> snapshot_kept N P d'"
proof (cases "isIdling d")
  case True
  with assms(2) obtain anim where "currentIdleAnim d = Some anim"
    by (auto simp add: snapshot_kept_def)
  with True assms show ?thesis
    by (simp add: updateIdle_def updateIdleAnimationFrame_def stationary_def snapshot_kept_def)
next
  case False
  with assms show ?thesis
    by (simp add: updateIdle_def stationary_def snapshot_kept_def startIdleAnimation_def
        enterIdle_def)
qed

lemma run_snapshot:
  assumes "\<forall>env\<in>set envs. stationary env" and "snapshot_kept N P d"
  shows "\<exists>d'. run cfg envs d = Inr d' \<and> snapshot_kept N P d'"
  using assms
proof (induction envs arbitrary: d)
  case Nil
  then show ?case by simp
next
  case (Cons env envs)
  from Cons.prems obtain d1 where d1: "updateIdle cfg env d = Inr d1" "snapshot_kept N P d1"
    using updateIdle_snapshot [of env N P d cfg] by auto
  from Cons.IH [OF _ d1(2)] Cons.prems(1) d1(1) show ?case
    by simp
qed

lemma run_await:
  assumes "\<forall>env\<in>set envs. stationary env" and "\<not> isIdling c"
    and "list_all (\<lambda>t. \<not> js_ge t (idleMinTime c)) (timer_trace (length envs) (idleTimer c))"
  shows "run cfg envs c =
           Inr (c\<lparr>idleTimer := last (idleTimer c # timer_trace (length envs) (idleTimer c))\<rparr>)"
  using assms
proof (induction envs arbitrary: c)
  case Nil
  then show ?case by simp
next
  case (Cons env envs)
  let ?c1 = "c\<lparr>idleTimer := js_add (idleTimer c) tick_length\<rparr>"
  have step: "updateIdle cfg env c = Inr ?c1"
    using Cons.prems by (simp add: updateIdle_def stationary_def)
  have "run cfg envs ?c1 =
          Inr (?c1\<lparr>idleTimer := last (idleTimer ?c1 # timer_trace (length envs) (idleTimer ?c1))\<rparr>)"
    using Cons.prems by (intro Cons.IH) simp_all
  with step show ?case
    by simp
qed

lemma run_playback:
  assumes "\<forall>env\<in>set envs. stationary env"
    and "isIdling c" and "currentIdleAnim c = Some anim"
    and "idleFrameCount c = Fin (of_nat f)" and "idleAnimLength c = Fin (of_nat L)"
    and "f + length envs < L" and "L \<le> 2 ^ 53"
  shows "run cfg envs c =
           Inr (if envs = [] then c
                else c\<lparr>idleFrameCount := Fin (of_nat (f + length envs)),
                       pattern := framePattern anim (Fin (of_nat (f + length envs))),
                       direction := idleFacingDirection c\<rparr>)"
  using assms
proof (induction envs arbitrary: c f)
  case Nil
  then show ?case by simp
next
  case (Cons env envs)
  let ?c1 = "c\<lparr>idleFrameCount := Fin (of_nat (Suc f)),
                 pattern := framePattern anim (Fin (of_nat (Suc f))),
                 direction := idleFacingDirection c\<rparr>"
  have f: "f < 2 ^ 53" "Suc f < L"
    using Cons.prems(6,7) by simp_all
  have inc: "js_add (Fin (of_nat f)) (Fin 1) = Fin (of_nat (Suc f))"
    using f(1) by (rule js_add_one_nat)
  have "\<not> js_ge (Fin (of_nat (Suc f))) (Fin (of_nat L))"
    using f(2) by (simp add: js_ge_def)
  then have step: "updateIdle cfg env c = Inr ?c1"
    using Cons.prems(1-5) inc
    by (simp add: updateIdle_def updateIdleAnimationFrame_def stationary_def)
  have "run cfg envs ?c1 =
          Inr (if envs = [] then ?c1
               else ?c1\<lparr>idleFrameCount := Fin (of_nat (Suc f + length envs)),
                         pattern := framePattern anim (Fin (of_nat (Suc f + length envs))),
                         direction := idleFacingDirection ?c1\<rparr>)"
    using Cons.prems by (intro Cons.IH) simp_all
  with step show ?case
    by simp
qed

section \<open>Weighted selection\<close>


















section \<open>The round trip\<close>

lemma chooseAnim_single: "chooseAnim draw [anim] = anim"
  by (simp add: chooseAnim_def)

lemma animA_length:
  "js_mul (js_add (js_sub (endPattern animA) (startPattern animA)) (Fin 1)) (Fin 15) = Fin 45"
  by (simp add: animA_def js_sub_def js_round_small)

lemma enterIdle_scenario:
  assumes "idleAnimations c = [animA]"
  shows "startIdleAnimation u c =
           c\<lparr>isIdling := True, currentIdleAnim := Some animA,
             originalCharacterName := characterName c, originalPattern := pattern c,
             idleFacingDirection := direction c, characterName := ''A'', pattern := Fin 0,
             idleFrameCount := Fin 0, idleAnimLength := Fin 45\<rparr>"
  using assms
  by (simp add: startIdleAnimation_def chooseAnim_single enterIdle_def animA_length)
     (simp add: animA_def)

lemma enterIdle_length:
  assumes "startPattern anim = Fin (of_nat s)" and "endPattern anim = Fin (of_nat e)"
    and "s \<le> e" and "e < 2 ^ 40"
  shows "idleAnimLength (enterIdle anim c) = Fin (of_nat (15 * (e - s + 1)))"
proof -
  have e: "e - s \<le> 2 ^ 53" "e - s + 1 \<le> 2 ^ 53" "(e - s + 1) * 15 \<le> 2 ^ 53"
    using assms(4) by simp_all
  have "js_sub (Fin (of_nat e)) (Fin (of_nat s)) = js_round (of_nat (e - s))"
    using assms(3) by (simp add: js_sub_def of_nat_diff)
  then have "js_sub (Fin (of_nat e)) (Fin (of_nat s)) = Fin (of_nat (e - s))"
    using js_round_nat [OF e(1)] by simp
  moreover have "js_add (Fin (of_nat (e - s))) (Fin 1) = Fin (of_nat (e - s + 1))"
    using js_round_nat [OF e(2)] by (simp add: add.commute)
  moreover have "js_mul (Fin (of_nat (e - s + 1))) (Fin 15) = Fin (of_nat ((e - s + 1) * 15))"
    using js_round_nat [OF e(3)] by simp
  ultimately show ?thesis
    by (simp add: enterIdle_def assms(1,2) mult.commute)
qed

lemma playback_completes:
  assumes "startPattern anim = Fin (of_nat s)" and "endPattern anim = Fin (of_nat e)"
    and "s \<le> e" and "e < 2 ^ 40"
    and "\<forall>env\<in>set envs. stationary env" and "length envs = 15 * (e - s + 1)"
  shows "\<exists>c'. run cfg envs (enterIdle anim c) = Inr c' \<and>
           \<not> isIdling c' \<and> currentIdleAnim c' = None \<and> idleTimer c' = Fin 0 \<and>
           characterName c' = characterName c \<and> pattern c' = pattern c"
proof -
  define L where "L = 15 * (e - s + 1)"
  let ?p = "enterIdle anim c"
  have len: "idleAnimLength ?p = Fin (of_nat L)"
    unfolding L_def using assms(1-4) by (rule enterIdle_length)
  have L: "0 < L" "L \<le> 2 ^ 53"
    using assms(4) by (simp_all add: L_def)
  have p: "isIdling ?p" "currentIdleAnim ?p = Some anim" "idleFrameCount ?p = Fin (of_nat 0)"
    "originalCharacterName ?p = characterName c" "originalPattern ?p = pattern c"
    by (simp_all add: enterIdle_def)
  from assms(6) L(1) obtain front env where envs: "envs = front @ [env]"
    by (cases envs rule: rev_cases) (auto simp add: L_def)
  with assms(5,6) have front: "\<forall>env\<in>set front. stationary env" "length front = L - 1"
    and env: "stationary env"
    by (simp_all add: L_def)
  have "0 + length front < L"
    using front(2) L(1) by simp
  with run_playback [OF front(1) p(1,2,3) len _ L(2), of cfg]
  obtain c1 where c1: "run cfg front ?p = Inr c1" "isIdling c1"
    "currentIdleAnim c1 = Some anim" "idleAnimLength c1 = Fin (of_nat L)"
    "idleFrameCount c1 = Fin (of_nat (L - 1))"
    "originalCharacterName c1 = characterName c" "originalPattern c1 = pattern c"
    using front(2) p len by (cases "front = []") auto
  have "L - 1 < 2 ^ 53"
    using L by simp
  then have "js_add (Fin (of_nat (L - 1))) (Fin 1) = Fin (of_nat (Suc (L - 1)))"
    by (rule js_add_one_nat)
  then have "js_ge (js_add (idleFrameCount c1) (Fin 1)) (idleAnimLength c1)"
    using L(1) by (simp add: c1 js_ge_def)
  then have "updateIdle cfg env c1 =
      Inr (c1\<lparr>idleFrameCount := js_add (idleFrameCount c1) (Fin 1),
              characterName := originalCharacterName c1,
              pattern := originalPattern c1,
              isIdling := False, currentIdleAnim := None, idleTimer := Fin 0\<rparr>)"
    using env c1(2,3) by (simp add: updateIdle_def updateIdleAnimationFrame_def stationary_def)
  then show ?thesis
    by (simp add: envs run_append c1)
qed

text \<open>
  Claim C4.  Let an idle animation start on a character with at least one
  definition, and let any number of ticks without motion or wait follow.  The
  ticks raise no exception.  If then the character is idling and the next
  such tick brings \<open>_idleFrameCount\<close> to \<open>_idleAnimLength\<close>, that tick leaves
  the character with the sheet name and the pattern it had before the
  animation started, \<open>_isIdling\<close> false, \<open>_currentIdleAnim\<close> cleared and
  \<open>_idleTimer\<close> at zero.  When the chosen definition runs from a pattern \<open>s\<close>
  to a pattern \<open>e \<ge> s\<close> (below \<open>2 ^ 40\<close>), this is the state after exactly
  \<open>15 * (e - s + 1)\<close> ticks.
\<close>

theorem idle_round_trip:
  assumes "idleAnimations c \<noteq> []"
    and "\<forall>env\<in>set envs. stationary env"
    and "stationary env"
  shows "(\<exists>c1 c'.
            run cfg envs (startIdleAnimation u c) = Inr c1 \<and>
            updateIdle cfg env c1 = Inr c' \<and>
            (isIdling c1 \<and> js_ge (js_add (idleFrameCount c1) (Fin 1)) (idleAnimLength c1) \<longrightarrow>
               c' = c1\<lparr>idleFrameCount := js_add (idleFrameCount c1) (Fin 1),
                       characterName := characterName c,
                       pattern := pattern c,
                       isIdling := False,
                       currentIdleAnim := None,
                       idleTimer := Fin 0\<rparr>)) \<and>
         (\<forall>anim s e.
            currentIdleAnim (startIdleAnimation u c) = Some anim \<and>
            startPattern anim = Fin (of_nat s) \<and> endPattern anim = Fin (of_nat e) \<and>
            s \<le> e \<and> e < 2 ^ 40 \<and> length envs = 15 * (e - s + 1) \<longrightarrow>
            (\<exists>c'. run cfg envs (startIdleAnimation u c) = Inr c' \<and>
                  \<not> isIdling c' \<and> currentIdleAnim c' = None \<and> idleTimer c' = Fin 0 \<and>
                  characterName c' = characterName c \<and> pattern c' = pattern c))"
proof -
  from run_snapshot [OF assms(2) startIdleAnimation_snapshot [OF assms(1)]]
  obtain c1 where c1: "run cfg envs (startIdleAnimation u c) = Inr c1"
    "snapshot_kept (characterName c) (pattern c) c1"
    by blast
  from updateIdle_snapshot [OF assms(3) c1(2)]
  obtain c' where c': "updateIdle cfg env c1 = Inr c'"
    by blast
  have "c' = c1\<lparr>idleFrameCount := js_add (idleFrameCount c1) (Fin 1),
                 characterName := characterName c,
                 pattern := pattern c,
                 isIdling := False,
                 currentIdleAnim := None,
                 idleTimer := Fin 0\<rparr>"
    if "isIdling c1" "js_ge (js_add (idleFrameCount c1) (Fin 1)) (idleAnimLength c1)"
  proof -
    from that(1) c1(2) obtain anim where "currentIdleAnim c1 = Some anim"
      "originalCharacterName c1 = characterName c" "originalPattern c1 = pattern c"
      by (auto simp add: snapshot_kept_def)
    with that assms(3) c' show ?thesis
      by (simp add: updateIdle_def updateIdleAnimationFrame_def stationary_def)
  qed
  with c1(1) c' have first: "\<exists>c1 c'.
            run cfg envs (startIdleAnimation u c) = Inr c1 \<and>
            updateIdle cfg env c1 = Inr c' \<and>
            (isIdling c1 \<and> js_ge (js_add (idleFrameCount c1) (Fin 1)) (idleAnimLength c1) \<longrightarrow>
               c' = c1\<lparr>idleFrameCount := js_add (idleFrameCount c1) (Fin 1),
                       characterName := characterName c,
                       pattern := pattern c,
                       isIdling := False,
                       currentIdleAnim := None,
                       idleTimer := Fin 0\<rparr>)"
    by blast
  have "\<exists>c'. run cfg envs (startIdleAnimation u c) = Inr c' \<and>
          \<not> isIdling c' \<and> currentIdleAnim c' = None \<and> idleTimer c' = Fin 0 \<and>
          characterName c' = characterName c \<and> pattern c' = pattern c"
    if "currentIdleAnim (startIdleAnimation u c) = Some anim"
      "startPattern anim = Fin (of_nat s)" "endPattern anim = Fin (of_nat e)"
      "s \<le> e" "e < 2 ^ 40" "length envs = 15 * (e - s + 1)"
    for anim s e
  proof -
    from that(1) assms(1) have "startIdleAnimation u c = enterIdle anim c"
      by (simp add: startIdleAnimation_def enterIdle_def)
    with playback_completes [OF that(2-5) assms(2) that(6), of cfg c] show ?thesis
      by simp
  qed
  with first show ?thesis
    by blast
qed

text \<open>
  The scenario's character: 45 ticks after the start of animation \<open>A\<close>, the
  sheet is \<open>Actor1\<close> and the pattern 1 again.
\<close>

theorem idle_round_trip_witness:
  "\<exists>c'. run scenario_cfg (replicate 45 (still (Fin 0) (Fin 0)))
           (startIdleAnimation (Fin 0) scenario_char) = Inr c' \<and>
         characterName c' = ''Actor1'' \<and> pattern c' = Fin 1 \<and> \<not> isIdling c' \<and>
         currentIdleAnim c' = None \<and> idleTimer c' = Fin 0 \<and>
         characterName (startIdleAnimation (Fin 0) scenario_char) = ''A'' \<and>
         characterName scenario_char = ''Actor1'' \<and> pattern scenario_char = Fin 1"
proof -
  let ?envs = "replicate 45 (still (Fin 0) (Fin 0))"
  have s: "startIdleAnimation (Fin 0) scenario_char =
      scenario_char\<lparr>isIdling := True, currentIdleAnim := Some animA,
             originalCharacterName := characterName scenario_char,
             originalPattern := pattern scenario_char,
             idleFacingDirection := direction scenario_char, characterName := ''A'',
             pattern := Fin 0, idleFrameCount := Fin 0, idleAnimLength := Fin 45\<rparr>"
    by (rule enterIdle_scenario) (simp add: scenario_char_fields)
  have "\<forall>anim s e.
            currentIdleAnim (startIdleAnimation (Fin 0) scenario_char) = Some anim \<and>
            startPattern anim = Fin (of_nat s) \<and> endPattern anim = Fin (of_nat e) \<and>
            s \<le> e \<and> e < 2 ^ 40 \<and> length ?envs = 15 * (e - s + 1) \<longrightarrow>
            (\<exists>c'. run scenario_cfg ?envs (startIdleAnimation (Fin 0) scenario_char) = Inr c' \<and>
                  \<not> isIdling c' \<and> currentIdleAnim c' = None \<and> idleTimer c' = Fin 0 \<and>
                  characterName c' = characterName scenario_char \<and>
                  pattern c' = pattern scenario_char)"
    using idle_round_trip
      [of scenario_char ?envs "still (Fin 0) (Fin 0)" scenario_cfg "Fin 0"]
    by (simp add: scenario_char_fields still_fields)
  from this [rule_format, of animA 0 2]
  have "\<exists>c'. run scenario_cfg ?envs (startIdleAnimation (Fin 0) scenario_char) = Inr c' \<and>
          \<not> isIdling c' \<and> currentIdleAnim c' = None \<and> idleTimer c' = Fin 0 \<and>
          characterName c' = characterName scenario_char \<and> pattern c' = pattern scenario_char"
    by (simp add: s) (simp add: animA_def)
  then show ?thesis
    by (auto simp add: scenario_char_fields s)
qed

section \<open>The scenario\<close>

text \<open>
  The timer of the scenario, tick by tick: each step adds the binary64 value
  of \<open>1/60\<close> and rounds.
\<close>

lemma timer_step_1: "js_add (Fin 0) tick_length = Fin (4803839602528529 / 288230376151711744)"
  unfolding tick_length_val js_add.simps
  by (rule js_round_eval [where k = "- 6"]) (simp_all add: pow2_def round_even_def floor_numeral_div)

lemma timer_step_2: "js_add (Fin (4803839602528529 / 288230376151711744)) tick_length = Fin (4803839602528529 / 144115188075855872)"
  unfolding tick_length_val js_add.simps
  by (rule js_round_eval [where k = "- 5"]) (simp_all add: pow2_def round_even_def floor_numeral_div)

lemma timer_step_3: "js_add (Fin (4803839602528529 / 144115188075855872)) tick_length = Fin (3602879701896397 / 72057594037927936)"
  unfolding tick_length_val js_add.simps
  by (rule js_round_eval [where k = "- 5"]) (simp_all add: pow2_def round_even_def floor_numeral_div)

lemma timer_step_4: "js_add (Fin (3602879701896397 / 72057594037927936)) tick_length = Fin (4803839602528529 / 72057594037927936)"
  unfolding tick_length_val js_add.simps
  by (rule js_round_eval [where k = "- 4"]) (simp_all add: pow2_def round_even_def floor_numeral_div)

lemma timer_step_5: "js_add (Fin (4803839602528529 / 72057594037927936)) tick_length = Fin (6004799503160661 / 72057594037927936)"
  unfolding tick_length_val js_add.simps
  by (rule js_round_eval [where k = "- 4"]) (simp_all add: pow2_def round_even_def floor_numeral_div)

lemma timer_step_6: "js_add (Fin (6004799503160661 / 72057594037927936)) tick_length = Fin (7205759403792793 / 72057594037927936)"
  unfolding tick_length_val js_add.simps
  by (rule js_round_eval [where k = "- 4"]) (simp_all add: pow2_def round_even_def floor_numeral_div)

lemma timer_step_7: "js_add (Fin (7205759403792793 / 72057594037927936)) tick_length = Fin (8406719304424925 / 72057594037927936)"
  unfolding tick_length_val js_add.simps
  by (rule js_round_eval [where k = "- 4"]) (simp_all add: pow2_def round_even_def floor_numeral_div)

lemma timer_step_8: "js_add (Fin (8406719304424925 / 72057594037927936)) tick_length = Fin (4803839602528529 / 36028797018963968)"
  unfolding tick_length_val js_add.simps
  by (rule js_round_eval [where k = "- 3"]) (simp_all add: pow2_def round_even_def floor_numeral_div)

lemma timer_step_9: "js_add (Fin (4803839602528529 / 36028797018963968)) tick_length = Fin (5404319552844595 / 36028797018963968)"
  unfolding tick_length_val js_add.simps
  by (rule js_round_eval [where k = "- 3"]) (simp_all add: pow2_def round_even_def floor_numeral_div)

lemma timer_step_10: "js_add (Fin (5404319552844595 / 36028797018963968)) tick_length = Fin (6004799503160661 / 36028797018963968)"
  unfolding tick_length_val js_add.simps
  by (rule js_round_eval [where k = "- 3"]) (simp_all add: pow2_def round_even_def floor_numeral_div)

lemma timer_step_11: "js_add (Fin (6004799503160661 / 36028797018963968)) tick_length = Fin (6605279453476727 / 36028797018963968)"
  unfolding tick_length_val js_add.simps
  by (rule js_round_eval [where k = "- 3"]) (simp_all add: pow2_def round_even_def floor_numeral_div)

lemma timer_step_12: "js_add (Fin (6605279453476727 / 36028797018963968)) tick_length = Fin (7205759403792793 / 36028797018963968)"
  unfolding tick_length_val js_add.simps
  by (rule js_round_eval [where k = "- 3"]) (simp_all add: pow2_def round_even_def floor_numeral_div)

lemma timer_step_13: "js_add (Fin (7205759403792793 / 36028797018963968)) tick_length = Fin (7806239354108859 / 36028797018963968)"
  unfolding tick_length_val js_add.simps
  by (rule js_round_eval [where k = "- 3"]) (simp_all add: pow2_def round_even_def floor_numeral_div)

lemma timer_step_14: "js_add (Fin (7806239354108859 / 36028797018963968)) tick_length = Fin (8406719304424925 / 36028797018963968)"
  unfolding tick_length_val js_add.simps
  by (rule js_round_eval [where k = "- 3"]) (simp_all add: pow2_def round_even_def floor_numeral_div)

lemma timer_step_15: "js_add (Fin (8406719304424925 / 36028797018963968)) tick_length = Fin (9007199254740991 / 36028797018963968)"
  unfolding tick_length_val js_add.simps
  by (rule js_round_eval [where k = "- 3"]) (simp_all add: pow2_def round_even_def floor_numeral_div)

lemma timer_step_16: "js_add (Fin (9007199254740991 / 36028797018963968)) tick_length = Fin (4803839602528529 / 18014398509481984)"
  unfolding tick_length_val js_add.simps
  by (rule js_round_eval [where k = "- 2"]) (simp_all add: pow2_def round_even_def floor_numeral_div)

lemma timer_step_17: "js_add (Fin (4803839602528529 / 18014398509481984)) tick_length = Fin (2552039788843281 / 9007199254740992)"
  unfolding tick_length_val js_add.simps
  by (rule js_round_eval [where k = "- 2"]) (simp_all add: pow2_def round_even_def floor_numeral_div)

lemma timer_step_18: "js_add (Fin (2552039788843281 / 9007199254740992)) tick_length = Fin (5404319552844595 / 18014398509481984)"
  unfolding tick_length_val js_add.simps
  by (rule js_round_eval [where k = "- 2"]) (simp_all add: pow2_def round_even_def floor_numeral_div)

lemma timer_step_19: "js_add (Fin (5404319552844595 / 18014398509481984)) tick_length = Fin (1426139882000657 / 4503599627370496)"
  unfolding tick_length_val js_add.simps
  by (rule js_round_eval [where k = "- 2"]) (simp_all add: pow2_def round_even_def floor_numeral_div)

lemma timer_step_20: "js_add (Fin (1426139882000657 / 4503599627370496)) tick_length = Fin (6004799503160661 / 18014398509481984)"
  unfolding tick_length_val js_add.simps
  by (rule js_round_eval [where k = "- 2"]) (simp_all add: pow2_def round_even_def floor_numeral_div)

lemma timer_step_21: "js_add (Fin (6004799503160661 / 18014398509481984)) tick_length = Fin (3152519739159347 / 9007199254740992)"
  unfolding tick_length_val js_add.simps
  by (rule js_round_eval [where k = "- 2"]) (simp_all add: pow2_def round_even_def floor_numeral_div)

lemma timer_step_22: "js_add (Fin (3152519739159347 / 9007199254740992)) tick_length = Fin (6605279453476727 / 18014398509481984)"
  unfolding tick_length_val js_add.simps
  by (rule js_round_eval [where k = "- 2"]) (simp_all add: pow2_def round_even_def floor_numeral_div)

lemma timer_step_23: "js_add (Fin (6605279453476727 / 18014398509481984)) tick_length = Fin (863189928579345 / 2251799813685248)"
  unfolding tick_length_val js_add.simps
  by (rule js_round_eval [where k = "- 2"]) (simp_all add: pow2_def round_even_def floor_numeral_div)

lemma timer_step_24: "js_add (Fin (863189928579345 / 2251799813685248)) tick_length = Fin (7205759403792793 / 18014398509481984)"
  unfolding tick_length_val js_add.simps
  by (rule js_round_eval [where k = "- 2"]) (simp_all add: pow2_def round_even_def floor_numeral_div)

lemma timer_step_25: "js_add (Fin (7205759403792793 / 18014398509481984)) tick_length = Fin (3752999689475413 / 9007199254740992)"
  unfolding tick_length_val js_add.simps
  by (rule js_round_eval [where k = "- 2"]) (simp_all add: pow2_def round_even_def floor_numeral_div)

lemma timer_step_26: "js_add (Fin (3752999689475413 / 9007199254740992)) tick_length = Fin (7806239354108859 / 18014398509481984)"
  unfolding tick_length_val js_add.simps
  by (rule js_round_eval [where k = "- 2"]) (simp_all add: pow2_def round_even_def floor_numeral_div)

lemma timer_step_27: "js_add (Fin (7806239354108859 / 18014398509481984)) tick_length = Fin (2026619832316723 / 4503599627370496)"
  unfolding tick_length_val js_add.simps
  by (rule js_round_eval [where k = "- 2"]) (simp_all add: pow2_def round_even_def floor_numeral_div)

lemma timer_step_28: "js_add (Fin (2026619832316723 / 4503599627370496)) tick_length = Fin (8406719304424925 / 18014398509481984)"
  unfolding tick_length_val js_add.simps
  by (rule js_round_eval [where k = "- 2"]) (simp_all add: pow2_def round_even_def floor_numeral_div)

lemma timer_step_29: "js_add (Fin (8406719304424925 / 18014398509481984)) tick_length = Fin (4353479639791479 / 9007199254740992)"
  unfolding tick_length_val js_add.simps
  by (rule js_round_eval [where k = "- 2"]) (simp_all add: pow2_def round_even_def floor_numeral_div)

lemma timer_step_30: "js_add (Fin (4353479639791479 / 9007199254740992)) tick_length = Fin (9007199254740991 / 18014398509481984)"
  unfolding tick_length_val js_add.simps
  by (rule js_round_eval [where k = "- 2"]) (simp_all add: pow2_def round_even_def floor_numeral_div)

lemma timer_step_31: "js_add (Fin (9007199254740991 / 18014398509481984)) tick_length = Fin (581714951868689 / 1125899906842624)"
  unfolding tick_length_val js_add.simps
  by (rule js_round_eval [where k = "- 1"]) (simp_all add: pow2_def round_even_def floor_numeral_div)

lemma timer_step_32: "js_add (Fin (581714951868689 / 1125899906842624)) tick_length = Fin (4803839602528529 / 9007199254740992)"
  unfolding tick_length_val js_add.simps
  by (rule js_round_eval [where k = "- 1"]) (simp_all add: pow2_def round_even_def floor_numeral_div)

lemma timer_step_33: "js_add (Fin (4803839602528529 / 9007199254740992)) tick_length = Fin (2476979795053773 / 4503599627370496)"
  unfolding tick_length_val js_add.simps
  by (rule js_round_eval [where k = "- 1"]) (simp_all add: pow2_def round_even_def floor_numeral_div)

lemma timer_step_34: "js_add (Fin (2476979795053773 / 4503599627370496)) tick_length = Fin (5104079577686563 / 9007199254740992)"
  unfolding tick_length_val js_add.simps
  by (rule js_round_eval [where k = "- 1"]) (simp_all add: pow2_def round_even_def floor_numeral_div)

lemma timer_step_35: "js_add (Fin (5104079577686563 / 9007199254740992)) tick_length = Fin (1313549891316395 / 2251799813685248)"
  unfolding tick_length_val js_add.simps
  by (rule js_round_eval [where k = "- 1"]) (simp_all add: pow2_def round_even_def floor_numeral_div)

lemma timer_step_36: "js_add (Fin (1313549891316395 / 2251799813685248)) tick_length = Fin (5404319552844597 / 9007199254740992)"
  unfolding tick_length_val js_add.simps
  by (rule js_round_eval [where k = "- 1"]) (simp_all add: pow2_def round_even_def floor_numeral_div)

lemma timer_step_37: "js_add (Fin (5404319552844597 / 9007199254740992)) tick_length = Fin (2777219770211807 / 4503599627370496)"
  unfolding tick_length_val js_add.simps
  by (rule js_round_eval [where k = "- 1"]) (simp_all add: pow2_def round_even_def floor_numeral_div)

lemma timer_step_38: "js_add (Fin (2777219770211807 / 4503599627370496)) tick_length = Fin (5704559528002631 / 9007199254740992)"
  unfolding tick_length_val js_add.simps
  by (rule js_round_eval [where k = "- 1"]) (simp_all add: pow2_def round_even_def floor_numeral_div)

lemma timer_step_39: "js_add (Fin (5704559528002631 / 9007199254740992)) tick_length = Fin (365917469723853 / 562949953421312)"
  unfolding tick_length_val js_add.simps
  by (rule js_round_eval [where k = "- 1"]) (simp_all add: pow2_def round_even_def floor_numeral_div)

lemma timer_step_40: "js_add (Fin (365917469723853 / 562949953421312)) tick_length = Fin (6004799503160665 / 9007199254740992)"
  unfolding tick_length_val js_add.simps
  by (rule js_round_eval [where k = "- 1"]) (simp_all add: pow2_def round_even_def floor_numeral_div)

lemma timer_step_41: "js_add (Fin (6004799503160665 / 9007199254740992)) tick_length = Fin (3077459745369841 / 4503599627370496)"
  unfolding tick_length_val js_add.simps
  by (rule js_round_eval [where k = "- 1"]) (simp_all add: pow2_def round_even_def floor_numeral_div)

lemma timer_step_42: "js_add (Fin (3077459745369841 / 4503599627370496)) tick_length = Fin (6305039478318699 / 9007199254740992)"
  unfolding tick_length_val js_add.simps
  by (rule js_round_eval [where k = "- 1"]) (simp_all add: pow2_def round_even_def floor_numeral_div)

lemma timer_step_43: "js_add (Fin (6305039478318699 / 9007199254740992)) tick_length = Fin (1613789866474429 / 2251799813685248)"
  unfolding tick_length_val js_add.simps
  by (rule js_round_eval [where k = "- 1"]) (simp_all add: pow2_def round_even_def floor_numeral_div)

lemma timer_step_44: "js_add (Fin (1613789866474429 / 2251799813685248)) tick_length = Fin (6605279453476733 / 9007199254740992)"
  unfolding tick_length_val js_add.simps
  by (rule js_round_eval [where k = "- 1"]) (simp_all add: pow2_def round_even_def floor_numeral_div)

lemma timer_step_45: "js_add (Fin (6605279453476733 / 9007199254740992)) tick_length = Fin (3377699720527875 / 4503599627370496)"
  unfolding tick_length_val js_add.simps
  by (rule js_round_eval [where k = "- 1"]) (simp_all add: pow2_def round_even_def floor_numeral_div)

lemma timer_step_46: "js_add (Fin (3377699720527875 / 4503599627370496)) tick_length = Fin (6905519428634767 / 9007199254740992)"
  unfolding tick_length_val js_add.simps
  by (rule js_round_eval [where k = "- 1"]) (simp_all add: pow2_def round_even_def floor_numeral_div)

lemma timer_step_47: "js_add (Fin (6905519428634767 / 9007199254740992)) tick_length = Fin (881954927026723 / 1125899906842624)"
  unfolding tick_length_val js_add.simps
  by (rule js_round_eval [where k = "- 1"]) (simp_all add: pow2_def round_even_def floor_numeral_div)

lemma timer_step_48: "js_add (Fin (881954927026723 / 1125899906842624)) tick_length = Fin (7205759403792801 / 9007199254740992)"
  unfolding tick_length_val js_add.simps
  by (rule js_round_eval [where k = "- 1"]) (simp_all add: pow2_def round_even_def floor_numeral_div)

lemma timer_step_49: "js_add (Fin (7205759403792801 / 9007199254740992)) tick_length = Fin (3677939695685909 / 4503599627370496)"
  unfolding tick_length_val js_add.simps
  by (rule js_round_eval [where k = "- 1"]) (simp_all add: pow2_def round_even_def floor_numeral_div)

lemma timer_step_50: "js_add (Fin (3677939695685909 / 4503599627370496)) tick_length = Fin (7505999378950835 / 9007199254740992)"
  unfolding tick_length_val js_add.simps
  by (rule js_round_eval [where k = "- 1"]) (simp_all add: pow2_def round_even_def floor_numeral_div)

lemma timer_step_51: "js_add (Fin (7505999378950835 / 9007199254740992)) tick_length = Fin (1914029841632463 / 2251799813685248)"
  unfolding tick_length_val js_add.simps
  by (rule js_round_eval [where k = "- 1"]) (simp_all add: pow2_def round_even_def floor_numeral_div)

lemma timer_step_52: "js_add (Fin (1914029841632463 / 2251799813685248)) tick_length = Fin (7806239354108869 / 9007199254740992)"
  unfolding tick_length_val js_add.simps
  by (rule js_round_eval [where k = "- 1"]) (simp_all add: pow2_def round_even_def floor_numeral_div)

lemma timer_step_53: "js_add (Fin (7806239354108869 / 9007199254740992)) tick_length = Fin (3978179670843943 / 4503599627370496)"
  unfolding tick_length_val js_add.simps
  by (rule js_round_eval [where k = "- 1"]) (simp_all add: pow2_def round_even_def floor_numeral_div)

lemma timer_step_54: "js_add (Fin (3978179670843943 / 4503599627370496)) tick_length = Fin (8106479329266903 / 9007199254740992)"
  unfolding tick_length_val js_add.simps
  by (rule js_round_eval [where k = "- 1"]) (simp_all add: pow2_def round_even_def floor_numeral_div)

lemma timer_step_55: "js_add (Fin (8106479329266903 / 9007199254740992)) tick_length = Fin (258018728651435 / 281474976710656)"
  unfolding tick_length_val js_add.simps
  by (rule js_round_eval [where k = "- 1"]) (simp_all add: pow2_def round_even_def floor_numeral_div)

lemma timer_step_56: "js_add (Fin (258018728651435 / 281474976710656)) tick_length = Fin (8406719304424937 / 9007199254740992)"
  unfolding tick_length_val js_add.simps
  by (rule js_round_eval [where k = "- 1"]) (simp_all add: pow2_def round_even_def floor_numeral_div)

lemma timer_step_57: "js_add (Fin (8406719304424937 / 9007199254740992)) tick_length = Fin (4278419646001977 / 4503599627370496)"
  unfolding tick_length_val js_add.simps
  by (rule js_round_eval [where k = "- 1"]) (simp_all add: pow2_def round_even_def floor_numeral_div)

lemma timer_step_58: "js_add (Fin (4278419646001977 / 4503599627370496)) tick_length = Fin (8706959279582971 / 9007199254740992)"
  unfolding tick_length_val js_add.simps
  by (rule js_round_eval [where k = "- 1"]) (simp_all add: pow2_def round_even_def floor_numeral_div)

lemma timer_step_59: "js_add (Fin (8706959279582971 / 9007199254740992)) tick_length = Fin (2214269816790497 / 2251799813685248)"
  unfolding tick_length_val js_add.simps
  by (rule js_round_eval [where k = "- 1"]) (simp_all add: pow2_def round_even_def floor_numeral_div)

lemma timer_step_60: "js_add (Fin (2214269816790497 / 2251799813685248)) tick_length = Fin (2251799813685251 / 2251799813685248)"
  unfolding tick_length_val js_add.simps
  by (rule js_round_eval [where k = "0"]) (simp_all add: pow2_def round_even_def floor_numeral_div)

lemmas timer_steps =
  timer_step_1 timer_step_2 timer_step_3 timer_step_4 timer_step_5 timer_step_6
  timer_step_7 timer_step_8 timer_step_9 timer_step_10 timer_step_11 timer_step_12
  timer_step_13 timer_step_14 timer_step_15 timer_step_16 timer_step_17 timer_step_18
  timer_step_19 timer_step_20 timer_step_21 timer_step_22 timer_step_23 timer_step_24
  timer_step_25 timer_step_26 timer_step_27 timer_step_28 timer_step_29 timer_step_30
  timer_step_31 timer_step_32 timer_step_33 timer_step_34 timer_step_35 timer_step_36
  timer_step_37 timer_step_38 timer_step_39 timer_step_40 timer_step_41 timer_step_42
  timer_step_43 timer_step_44 timer_step_45 timer_step_46 timer_step_47 timer_step_48
  timer_step_49 timer_step_50 timer_step_51 timer_step_52 timer_step_53 timer_step_54
  timer_step_55 timer_step_56 timer_step_57 timer_step_58 timer_step_59 timer_step_60

lemma timer_trace_60:
  "timer_trace 60 (Fin 0) =
     [Fin (4803839602528529 / 288230376151711744),
      Fin (4803839602528529 / 144115188075855872),
      Fin (3602879701896397 / 72057594037927936),
      Fin (4803839602528529 / 72057594037927936),
      Fin (6004799503160661 / 72057594037927936),
      Fin (7205759403792793 / 72057594037927936),
      Fin (8406719304424925 / 72057594037927936),
      Fin (4803839602528529 / 36028797018963968),
      Fin (5404319552844595 / 36028797018963968),
      Fin (6004799503160661 / 36028797018963968),
      Fin (6605279453476727 / 36028797018963968),
      Fin (7205759403792793 / 36028797018963968),
      Fin (7806239354108859 / 36028797018963968),
      Fin (8406719304424925 / 36028797018963968),
      Fin (9007199254740991 / 36028797018963968),
      Fin (4803839602528529 / 18014398509481984),
      Fin (2552039788843281 / 9007199254740992),
      Fin (5404319552844595 / 18014398509481984),
      Fin (1426139882000657 / 4503599627370496),
      Fin (6004799503160661 / 18014398509481984),
      Fin (3152519739159347 / 9007199254740992),
      Fin (6605279453476727 / 18014398509481984),
      Fin (863189928579345 / 2251799813685248),
      Fin (7205759403792793 / 18014398509481984),
      Fin (3752999689475413 / 9007199254740992),
      Fin (7806239354108859 / 18014398509481984),
      Fin (2026619832316723 / 4503599627370496),
      Fin (8406719304424925 / 18014398509481984),
      Fin (4353479639791479 / 9007199254740992),
      Fin (9007199254740991 / 18014398509481984),
      Fin (581714951868689 / 1125899906842624),
      Fin (4803839602528529 / 9007199254740992),
      Fin (2476979795053773 / 4503599627370496),
      Fin (5104079577686563 / 9007199254740992),
      Fin (1313549891316395 / 2251799813685248),
      Fin (5404319552844597 / 9007199254740992),
      Fin (2777219770211807 / 4503599627370496),
      Fin (5704559528002631 / 9007199254740992),
      Fin (365917469723853 / 562949953421312),
      Fin (6004799503160665 / 9007199254740992),
      Fin (3077459745369841 / 4503599627370496),
      Fin (6305039478318699 / 9007199254740992),
      Fin (1613789866474429 / 2251799813685248),
      Fin (6605279453476733 / 9007199254740992),
      Fin (3377699720527875 / 4503599627370496),
      Fin (6905519428634767 / 9007199254740992),
      Fin (881954927026723 / 1125899906842624),
      Fin (7205759403792801 / 9007199254740992),
      Fin (3677939695685909 / 4503599627370496),
      Fin (7505999378950835 / 9007199254740992),
      Fin (1914029841632463 / 2251799813685248),
      Fin (7806239354108869 / 9007199254740992),
      Fin (3978179670843943 / 4503599627370496),
      Fin (8106479329266903 / 9007199254740992),
      Fin (258018728651435 / 281474976710656),
      Fin (8406719304424937 / 9007199254740992),
      Fin (4278419646001977 / 4503599627370496),
      Fin (8706959279582971 / 9007199254740992),
      Fin (2214269816790497 / 2251799813685248),
      Fin (2251799813685251 / 2251799813685248)]"
  by (simp add: numeral_eq_Suc timer_steps)

lemma timer_trace_take: "n \<le> m \<Longrightarrow> timer_trace n t = take n (timer_trace m t)"
proof (induction n arbitrary: m t)
  case 0
  then show ?case by simp
next
  case (Suc n)
  then obtain m' where "m = Suc m'" "n \<le> m'"
    by (cases m) auto
  with Suc.IH [of m'] show ?case
    by simp
qed

lemma timer_trace_59:
  "list_all (\<lambda>t. \<not> js_ge t (Fin 1)) (timer_trace 59 (Fin 0))"
  "last (Fin 0 # timer_trace 59 (Fin 0)) = Fin (2214269816790497 / 2251799813685248)"
  using timer_trace_take [of 59 60 "Fin 0"]
  by (simp_all add: timer_trace_60 js_ge_def)

lemma timer_trace_below:
  assumes "n < 60"
  shows "list_all (\<lambda>t. \<not> js_ge t (Fin 1)) (timer_trace n (Fin 0))"
proof -
  have "timer_trace n (Fin 0) = take n (timer_trace 59 (Fin 0))"
    using assms by (intro timer_trace_take) simp
  moreover have "set (take n (timer_trace 59 (Fin 0))) \<subseteq> set (timer_trace 59 (Fin 0))"
    by (rule set_take_subset)
  ultimately show ?thesis
    using timer_trace_59(1) by (auto simp add: list_all_iff)
qed

lemma scenario_wait:
  assumes "length envs < 60" and "\<forall>env\<in>set envs. stationary env"
  shows "run scenario_cfg envs scenario_char =
           Inr (scenario_char\<lparr>idleTimer := last (Fin 0 # timer_trace (length envs) (Fin 0))\<rparr>)"
  using run_await [of envs scenario_char scenario_cfg] assms timer_trace_below [of "length envs"]
  by (simp add: scenario_char_fields)

lemma scenario_fire:
  assumes "stationary env" and "js_lt (js_mul (roll_random env) (Fin 100)) (Fin 100)"
  shows "updateIdle scenario_cfg env
           (scenario_char\<lparr>idleTimer := Fin (2214269816790497 / 2251799813685248)\<rparr>)
         = Inr scenario_idle"
  using assms
  by (simp add: updateIdle_def stationary_def scenario_char_fields timer_step_60 js_ge_def
      js_gt_def scenario_cfg_def startIdleAnimation_def chooseAnim_single scenario_idle_def)

lemma scenario_idle_fields:
  "isIdling scenario_idle" "currentIdleAnim scenario_idle = Some animA"
  "idleFrameCount scenario_idle = Fin 0" "idleAnimLength scenario_idle = Fin 45"
  "characterName scenario_idle = ''A''" "pattern scenario_idle = Fin 0"
  "originalCharacterName scenario_idle = ''Actor1''" "originalPattern scenario_idle = Fin 1"
  "idleFacingDirection scenario_idle = 2"
  by (simp_all add: scenario_idle_def enterIdle_def animA_length scenario_char_fields)
     (simp_all add: animA_def)

lemma scenario_play:
  assumes "length envs < 45" and "\<forall>env\<in>set envs. stationary env"
  shows "run scenario_cfg envs scenario_idle =
           Inr (if envs = [] then scenario_idle
                else scenario_idle\<lparr>idleFrameCount := Fin (of_nat (length envs)),
                       pattern := framePattern animA (Fin (of_nat (length envs))),
                       direction := 2\<rparr>)"
  using run_playback [of envs scenario_idle animA 0 45 scenario_cfg] assms
  by (simp add: scenario_idle_fields)

lemma scenario_finish:
  assumes "stationary env"
  shows "updateIdle scenario_cfg env
           (scenario_idle\<lparr>idleFrameCount := Fin 44, pattern := p, direction := 2\<rparr>)
         = Inr (scenario_idle\<lparr>idleFrameCount := Fin 45, direction := 2,
                  characterName := ''Actor1'', pattern := Fin 1, isIdling := False,
                  currentIdleAnim := None, idleTimer := Fin 0\<rparr>)"
  using assms
  by (simp add: updateIdle_def updateIdleAnimationFrame_def stationary_def scenario_idle_fields
      js_round_small js_ge_def)

lemma scenario_phases:
  assumes len: "length envs = 105"
    and st: "\<forall>env\<in>set envs. stationary env"
    and roll: "js_lt (js_mul (roll_random (envs ! 59)) (Fin 100)) (Fin 100)"
  shows "n < 60 \<Longrightarrow> idlingAfter scenario_cfg (take n envs) scenario_char = Some False"
    and "60 \<le> n \<Longrightarrow> n < 105 \<Longrightarrow>
           idlingAfter scenario_cfg (take n envs) scenario_char = Some True"
    and "run scenario_cfg (take 60 envs) scenario_char = Inr scenario_idle"
    and "run scenario_cfg envs scenario_char =
           Inr (scenario_idle\<lparr>idleFrameCount := Fin 45, direction := 2,
                  characterName := ''Actor1'', pattern := Fin 1, isIdling := False,
                  currentIdleAnim := None, idleTimer := Fin 0\<rparr>)"
proof -
  have st_take: "\<forall>env\<in>set (take k envs). stationary env" for k
    using st by (meson in_set_takeD)
  have st_drop: "\<forall>env\<in>set (take k (drop j envs)). stationary env" for k j
    using st by (meson in_set_takeD in_set_dropD)
  have st_nth: "stationary (envs ! k)" if "k < 105" for k
    using st len that by simp
  show "idlingAfter scenario_cfg (take n envs) scenario_char = Some False" if "n < 60"
    using scenario_wait [of "take n envs"] that len st_take [of n]
    by (simp add: idlingAfter_def scenario_char_fields)
  have w59: "run scenario_cfg (take 59 envs) scenario_char =
               Inr (scenario_char\<lparr>idleTimer := Fin (2214269816790497 / 2251799813685248)\<rparr>)"
    using scenario_wait [of "take 59 envs"] len st_take [of 59]
    by (simp add: timer_trace_59(2) del: last.simps)
  have split60: "take (60 + k) envs = take 59 envs @ envs ! 59 # take k (drop 60 envs)" for k
  proof -
    have "take (60 + k) envs = take 60 envs @ take k (drop 60 envs)"
      by (simp add: take_add)
    moreover have "take 60 envs = take 59 envs @ [envs ! 59]"
      using take_Suc_conv_app_nth [of 59 envs] len by simp
    ultimately show ?thesis by simp
  qed
  have fire: "updateIdle scenario_cfg (envs ! 59)
                (scenario_char\<lparr>idleTimer := Fin (2214269816790497 / 2251799813685248)\<rparr>)
              = Inr scenario_idle"
    using st_nth [of 59] roll by (intro scenario_fire) simp_all
  have r60: "run scenario_cfg (take (60 + k) envs) scenario_char =
               run scenario_cfg (take k (drop 60 envs)) scenario_idle" for k
    by (simp add: split60 run_append w59 fire)
  from r60 [of 0] show "run scenario_cfg (take 60 envs) scenario_char = Inr scenario_idle"
    by simp
  show "idlingAfter scenario_cfg (take n envs) scenario_char = Some True"
    if "60 \<le> n" "n < 105"
  proof -
    define k where "k = n - 60"
    have k: "n = 60 + k" "k < 45"
      using that by (simp_all add: k_def)
    have "length (take k (drop 60 envs)) = k"
      using len k by simp
    with scenario_play [of "take k (drop 60 envs)"] k st_drop [of k 60]
    show ?thesis
      by (simp add: idlingAfter_def r60 scenario_idle_fields)
  qed
  have "length (take 44 (drop 60 envs)) = 44"
    using len by simp
  with scenario_play [of "take 44 (drop 60 envs)"] st_drop [of 44 60]
  have p44: "run scenario_cfg (take 44 (drop 60 envs)) scenario_idle =
               Inr (scenario_idle\<lparr>idleFrameCount := Fin 44,
                      pattern := framePattern animA (Fin 44), direction := 2\<rparr>)"
    by auto
  have "envs = take 104 envs @ [envs ! 104]"
    using take_Suc_conv_app_nth [of 104 envs] len by simp
  then have "run scenario_cfg envs scenario_char =
      (case run scenario_cfg (take (60 + 44) envs) scenario_char of
         Inl err \<Rightarrow> Inl err | Inr c' \<Rightarrow> run scenario_cfg [envs ! 104] c')"
    using run_append [of scenario_cfg "take 104 envs" "[envs ! 104]" scenario_char] by simp
  then show "run scenario_cfg envs scenario_char =
           Inr (scenario_idle\<lparr>idleFrameCount := Fin 45, direction := 2,
                  characterName := ''Actor1'', pattern := Fin 1, isIdling := False,
                  currentIdleAnim := None, idleTimer := Fin 0\<rparr>)"
    using scenario_finish [OF st_nth [of 104]]
    by (simp only: r60 p44) simp
qed

text \<open>
  Claim C6, as stated, fails: in the scenario the trigger fires on tick 60,
  not on tick 61.  Sixty additions of the binary64 value of \<open>1/60\<close> give
  \<open>1 + 3 / 2 ^ 51\<close>, which has reached the minimum of one second; in exact
  arithmetic the sixtieth sum is \<open>1\<close>, and the tick is the same.
\<close>

theorem scenario_tick_61_counterexample:
  "idlingAfter scenario_cfg (replicate 59 (still (Fin (1 / 2)) (Fin (1 / 2)))) scenario_char
     = Some False
   \<and> idlingAfter scenario_cfg (replicate 60 (still (Fin (1 / 2)) (Fin (1 / 2)))) scenario_char
     = Some True
   \<and> last (timer_trace 60 (Fin 0)) = Fin (1 + 3 / 2 ^ 51)"
proof -
  let ?envs = "replicate 105 (still (Fin (1 / 2)) (Fin (1 / 2)))"
  have len: "length ?envs = 105" and st: "\<forall>env\<in>set ?envs. stationary env"
    by (simp_all add: still_fields)
  have roll: "js_lt (js_mul (roll_random (?envs ! 59)) (Fin 100)) (Fin 100)"
    by (simp add: still_fields js_round_small)
  from scenario_phases(1) [OF len st roll, of 59] scenario_phases(2) [OF len st roll, of 60]
  show ?thesis
    by (simp add: timer_trace_60)
qed

text \<open>
  Claim C6, amended.  In the scenario, over 105 ticks on which the character
  stands still, whatever \<open>Math.random()\<close> returns: the character
  is not idling after any of the first 59 ticks; the trigger fires on tick 60,
  with \<open>_idleAnimLength\<close> \<open>= (2 - 0 + 1) * 15 = 45\<close> on sheet \<open>A\<close> at pattern 0;
  it is idling after each of the ticks 60 to 104; and tick 105, the 45th after
  the trigger, leaves it not idling on its original sheet and pattern with
  \<open>_idleTimer\<close> at zero.
\<close>

theorem scenario_timeline:
  assumes "length envs = 105"
    and "\<forall>env\<in>set envs. stationary env \<and> is_random (roll_random env)"
  shows "(\<forall>n<60. idlingAfter scenario_cfg (take n envs) scenario_char = Some False) \<and>
         (\<forall>n. 60 \<le> n \<and> n < 105 \<longrightarrow>
              idlingAfter scenario_cfg (take n envs) scenario_char = Some True) \<and>
         (\<exists>c. run scenario_cfg (take 60 envs) scenario_char = Inr c \<and>
              idleAnimLength c = Fin 45 \<and> idleFrameCount c = Fin 0 \<and>
              characterName c = ''A'' \<and> pattern c = Fin 0) \<and>
         (\<exists>c. run scenario_cfg envs scenario_char = Inr c \<and> \<not> isIdling c \<and>
              currentIdleAnim c = None \<and> idleTimer c = Fin 0 \<and>
              characterName c = characterName scenario_char \<and>
              pattern c = pattern scenario_char)"
proof -
  have st: "\<forall>env\<in>set envs. stationary env"
    using assms(2) by simp
  have "envs ! 59 \<in> set envs"
    using assms(1) by simp
  with assms(2) have roll: "js_lt (js_mul (roll_random (envs ! 59)) (Fin 100)) (Fin 100)"
    by (auto intro: is_random_roll(2))
  note ph = scenario_phases [OF assms(1) st roll]
  show ?thesis
    using ph(1,2) by (simp add: ph(3,4) scenario_idle_fields scenario_char_fields)
qed

text \<open>The scenario with every draw at one half.\<close>

theorem scenario_timeline_witness:
  "idlingAfter scenario_cfg (replicate 59 (still (Fin (1 / 2)) (Fin (1 / 2)))) scenario_char
     = Some False
   \<and> idlingAfter scenario_cfg (replicate 104 (still (Fin (1 / 2)) (Fin (1 / 2)))) scenario_char
     = Some True
   \<and> idlingAfter scenario_cfg (replicate 105 (still (Fin (1 / 2)) (Fin (1 / 2)))) scenario_char
     = Some False
   \<and> is_random (Fin (1 / 2))"
proof -
  let ?envs = "replicate 105 (still (Fin (1 / 2)) (Fin (1 / 2)))"
  have "\<forall>env\<in>set ?envs. stationary env \<and> is_random (roll_random env)"
    by (simp add: still_fields is_random_half)
  from scenario_timeline [OF _ this]
  have t: "\<forall>n<60. idlingAfter scenario_cfg (take n ?envs) scenario_char = Some False"
    "\<forall>n. 60 \<le> n \<and> n < 105 \<longrightarrow>
         idlingAfter scenario_cfg (take n ?envs) scenario_char = Some True"
    "\<exists>c. run scenario_cfg ?envs scenario_char = Inr c \<and> \<not> isIdling c"
    by auto
  from t(1) have "idlingAfter scenario_cfg (take 59 ?envs) scenario_char = Some False"
    by simp
  moreover from t(2) have "idlingAfter scenario_cfg (take 104 ?envs) scenario_char = Some True"
    by simp
  moreover from t(3) have "idlingAfter scenario_cfg ?envs scenario_char = Some False"
    by (auto simp add: idlingAfter_def)
  ultimately show ?thesis
    using is_random_half by simp
qed

section \<open>Notetags\<close>

lemma digit_not_space: "is_digit ch \<Longrightarrow> \<not> is_space ch"
  by (auto simp add: is_digit_def is_space_def)

lemma digit_not_punct:
  assumes "is_digit ch"
  shows "ch \<noteq> CHR '',''" and "ch \<noteq> CHR ''<''" and "ch \<noteq> CHR ''>''"
  using assms by (auto simp add: is_digit_def)

lemma punct_not_digit:
  "\<not> is_digit CHR '',''" "\<not> is_digit CHR ''>''" "\<not> is_space CHR '',''"
  "\<not> is_space CHR ''<''" "\<not> is_space CHR ''>''" "is_space CHR '' ''"
  by (simp_all add: is_digit_def is_space_def)

lemma upper_code_lt: "upper_code ch = upper_code CHR ''<'' \<longleftrightarrow> ch = CHR ''<''"
proof
  assume "upper_code ch = upper_code CHR ''<''"
  then have "(of_char ch :: nat) = of_char CHR ''<''"
    by (auto simp add: upper_code_def split: if_splits)
  then show "ch = CHR ''<''"
    by (simp only: of_char_eq_iff)
qed simp

lemma regex_search_no_start:
  assumes "\<And>s. m s \<noteq> None \<Longrightarrow> s \<noteq> [] \<and> hd s = CHR ''<''"
    and "CHR ''<'' \<notin> set str"
  shows "regex_search m str = None"
  using assms(2)
proof (induction str)
  case Nil
  from assms(1) [of "[]"] show ?case by (cases "m []") auto
next
  case (Cons ch str)
  from assms(1) [of "ch # str"] Cons.prems have "m (ch # str) = None"
    by (cases "m (ch # str)") auto
  with Cons show ?case by simp
qed

lemma match_time_at_start:
  "match_time_at (CHR ''<'' # tag) s \<noteq> None \<Longrightarrow> s \<noteq> [] \<and> hd s = CHR ''<''"
  by (cases s) (auto simp add: match_time_at_def upper_code_lt split: if_splits)

lemma match_anim_at_start:
  "match_anim_at s \<noteq> None \<Longrightarrow> s \<noteq> [] \<and> hd s = CHR ''<''"
  by (cases s) (auto simp add: match_anim_at_def upper_code_lt split: if_splits)

lemma dropWhile_spaces:
  assumes "list_all is_space sp" and "\<not> is_space x"
  shows "dropWhile is_space (sp @ x # r) = x # r"
  using assms by (induction sp) simp_all

lemma takeWhile_run:
  assumes "list_all P xs" and "\<not> P x"
  shows "takeWhile P (xs @ x # r) = xs" and "dropWhile P (xs @ x # r) = x # r"
  using assms by (induction xs) simp_all

lemma match_digits_run:
  assumes "ds \<noteq> []" and "list_all is_digit ds" and "\<not> is_digit x" and "list_all is_space sp"
  shows "match_digits (sp @ ds @ x # r) = Some (ds, x # r)"
proof -
  obtain d ds' where ds: "ds = d # ds'"
    using assms(1) by (cases ds) auto
  with assms(2) have "\<not> is_space d"
    by (simp add: digit_not_space)
  then have "dropWhile is_space (sp @ ds @ x # r) = ds @ x # r"
    using dropWhile_spaces [OF assms(4), of d "ds' @ x # r"] by (simp add: ds)
  then show ?thesis
    using assms(1) takeWhile_run [OF assms(2,3), of r] by (simp add: match_digits_def)
qed

lemma dropWhile_name:
  assumes "\<exists>ch\<in>set nm. \<not> is_space ch"
  shows "dropWhile is_space (nm @ r) = dropWhile is_space nm @ r"
    and "dropWhile is_space nm \<noteq> []"
  using assms by (induction nm) auto

lemma match_name_run:
  assumes "CHR '','' \<notin> set nm" and "\<exists>ch\<in>set nm. \<not> is_space ch" and "list_all is_space sp"
  shows "match_name (sp @ nm @ CHR '','' # r) = Some (dropWhile is_space nm, r)"
proof -
  let ?g = "dropWhile is_space nm"
  have "dropWhile is_space (sp @ nm @ CHR '','' # r) = dropWhile is_space (nm @ CHR '','' # r)"
    using assms(3) by (induction sp) simp_all
  then have d: "dropWhile is_space (sp @ nm @ CHR '','' # r) = ?g @ CHR '','' # r"
    by (simp add: dropWhile_name(1) [OF assms(2)])
  have "set ?g \<subseteq> set nm"
    by (rule set_dropWhileD [THEN subsetI])
  with assms(1) have "list_all (\<lambda>ch. ch \<noteq> CHR '','') ?g"
    by (auto simp add: list_all_iff)
  then have t: "takeWhile (\<lambda>ch. ch \<noteq> CHR '','') (?g @ CHR '','' # r) = ?g"
    "dropWhile (\<lambda>ch. ch \<noteq> CHR '','') (?g @ CHR '','' # r) = CHR '','' # r"
    by (simp_all add: takeWhile_run)
  show ?thesis
    using dropWhile_name(2) [OF assms(2)] by (simp add: match_name_def d t)
qed

lemma trim_dropWhile: "trim (dropWhile is_space nm) = trim nm"
proof -
  have "dropWhile is_space (dropWhile is_space nm) = dropWhile is_space nm"
    by (rule dropWhile_idem)
  then show ?thesis by (simp add: trim_def)
qed

lemma space_not_lt: "is_space ch \<Longrightarrow> ch \<noteq> CHR ''<''"
  by (auto simp add: is_space_def)

lemma trim_id:
  assumes "s \<noteq> []" and "\<not> is_space (hd s)" and "\<not> is_space (last s)"
  shows "trim s = s"
proof -
  have "dropWhile is_space s = s"
    using assms(1,2) by (cases s) auto
  moreover have "dropWhile is_space (rev s) = rev s"
    using assms(1,3) by (cases "rev s") (auto simp add: hd_rev [symmetric])
  ultimately show ?thesis
    by (simp add: trim_def)
qed

lemma parse_line_tag:
  assumes nm: "CHR '','' \<notin> set nm" "CHR ''<'' \<notin> set nm" "\<exists>ch\<in>set nm. \<not> is_space ch"
    and s: "s \<noteq> []" "list_all is_digit s"
    and e: "e \<noteq> []" "list_all is_digit e"
    and sp: "list_all is_space sp1" "list_all is_space sp2" "list_all is_space sp3"
    and tail: "tail = x # r" "\<not> is_digit x" "\<not> is_space (last tail)" "CHR ''<'' \<notin> set tail"
  shows "parse_line (''<IdleAnim:'' @ sp1 @ nm @ '','' @ sp2 @ s @ '','' @ sp3 @ e @ tail) acc =
           (fst acc @
              [\<lparr>name = trim nm, startPattern = parseInt s, endPattern = parseInt e,
                probability =
                  js_or (parseInt (case match_opt_prob tail of None \<Rightarrow> [] | Some ds \<Rightarrow> ds))
                    (Fin 100)\<rparr>],
            fst (snd acc), snd (snd acc))"
proof -
  let ?rest = "''IdleAnim:'' @ sp1 @ nm @ '','' @ sp2 @ s @ '','' @ sp3 @ e @ tail"
  let ?line = "CHR ''<'' # ?rest"
  have line: "''<IdleAnim:'' @ sp1 @ nm @ '','' @ sp2 @ s @ '','' @ sp3 @ e @ tail = ?line"
    by simp
  have "last ?line = last tail"
    by (simp add: tail(1))
  then have trim: "trim ?line = ?line"
    using tail(3) by (intro trim_id) (simp_all add: punct_not_digit)
  have "CHR ''<'' \<notin> set s" "CHR ''<'' \<notin> set e"
    using s(2) e(2) digit_not_punct(2) by (auto simp add: list_all_iff)
  moreover have "CHR ''<'' \<notin> set sp1" "CHR ''<'' \<notin> set sp2" "CHR ''<'' \<notin> set sp3"
    using sp space_not_lt by (auto simp add: list_all_iff)
  ultimately have no_lt: "CHR ''<'' \<notin> set ?rest"
    using nm(2) tail(4) by simp
  have time: "regex_search (match_time_at (CHR ''<'' # tag)) ?rest = None" for tag
    using match_time_at_start no_lt by (rule regex_search_no_start)
  have no_min: "regex_search (match_time_at ''<IdleAnimMinTime:'') ?line = None"
    using time [of "''IdleAnimMinTime:''"]
    by (simp add: match_time_at_def upper_code_def)
  have no_max: "regex_search (match_time_at ''<IdleAnimMaxTime:'') ?line = None"
    using time [of "''IdleAnimMaxTime:''"]
    by (simp add: match_time_at_def upper_code_def)
  have g1: "match_name (sp1 @ nm @ CHR '','' # r') = Some (dropWhile is_space nm, r')" for r'
    using nm(1,3) sp(1) by (rule match_name_run)
  have g2: "match_digits (sp2 @ s @ CHR '','' # r') = Some (s, CHR '','' # r')" for r'
    using s punct_not_digit(1) sp(2) by (rule match_digits_run)
  have g3: "match_digits (sp3 @ e @ tail) = Some (e, tail)"
    unfolding tail(1) using e tail(2) sp(3) by (rule match_digits_run)
  have "match_anim_at ?line =
          Some (dropWhile is_space nm, s, e, match_opt_prob tail)"
    by (simp add: match_anim_at_def upper_code_def g1 g2 g3)
  then have anim: "regex_search match_anim_at ?line =
          Some (dropWhile is_space nm, s, e, match_opt_prob tail)"
    by simp
  show ?thesis
    unfolding line parse_line_def trim no_min no_max anim
    by (simp add: trim_dropWhile)
qed

lemma split_lines_one: "CHR 0x0A \<notin> set str \<Longrightarrow> split_lines str = [str]"
  by (induction str) auto

lemma parse_note_one_line:
  "CHR 0x0A \<notin> set str \<Longrightarrow> parse_note str = parse_line str ([], None, None)"
  by (simp add: parse_note_def split_lines_one)

lemma js_or_nonzero: "js_or x (Fin 100) \<noteq> Fin 0"
  by (simp add: js_or_def js_truthy_def)

lemma parse_line_nonzero:
  assumes "\<forall>anim\<in>set (fst acc). probability anim \<noteq> Fin 0"
  shows "\<forall>anim\<in>set (fst (parse_line line acc)). probability anim \<noteq> Fin 0"
  using assms by (auto simp add: parse_line_def js_or_nonzero split: option.splits)

lemma parse_lines_nonzero:
  assumes "\<forall>anim\<in>set (fst acc). probability anim \<noteq> Fin 0"
  shows "\<forall>anim\<in>set (fst (foldl (\<lambda>acc line. parse_line line acc) acc lines)).
           probability anim \<noteq> Fin 0"
  using assms
proof (induction lines arbitrary: acc)
  case Nil
  then show ?case by simp
next
  case (Cons line lines)
  have "\<forall>anim\<in>set (fst (parse_line line acc)). probability anim \<noteq> Fin 0"
    using Cons.prems by (rule parse_line_nonzero)
  then show ?case
    by (simp add: Cons.IH)
qed

lemma parse_note_nonzero: "\<forall>anim\<in>set (fst (parse_note str)). probability anim \<noteq> Fin 0"
  unfolding parse_note_def by (rule parse_lines_nonzero) simp

lemmas eval_chars =
  is_space_def is_digit_def is_numch_def upper_code_def

lemmas eval_parse =
  parse_note_def parse_line_def trim_def match_time_at_def match_anim_at_def match_name_def
  match_digits_def match_opt_prob_def parseInt_def parseFloat_def digits_val_def digit_val_def
  js_or_def js_truthy_def eval_chars js_round_small

lemma parse_examples:
  "parse_note ''<IdleAnim: Foo, 0, 2>'' =
     ([\<lparr>name = ''Foo'', startPattern = Fin 0, endPattern = Fin 2, probability = Fin 100\<rparr>],
      None, None)"
  "parse_note ''IdleAnim: Foo, 0, 2'' = ([], None, None)"
  "parse_note ''<IdleAnimMinTime: 3.0>'' = ([], Some (Fin 3), None)"
  "parse_note ''<IdleAnimMaxTime: 8.0>'' = ([], None, Some (Fin 8))"
  by (simp_all add: eval_parse)

text \<open>
  Claim C7, as stated, fails at its own example: the line
  \<open>IdleAnim: Foo, 0, 2\<close> appends nothing, because the pattern of
  \<open>loadIdleNotetags\<close> starts with \<open><\<close>; the tag the plugin documents is
  \<open><IdleAnim: ...>\<close>.
\<close>

theorem idle_anim_line_without_bracket_counterexample:
  "idleAnimations (loadIdleNotetags ''IdleAnim: Foo, 0, 2'' scenario_char) = []
   \<and> regex_search match_anim_at ''IdleAnim: Foo, 0, 2'' = None"
  by (simp add: loadIdleNotetags_def setCharacterIdleData_def parse_examples)
     (simp add: match_anim_at_def upper_code_def)

text \<open>
  Claim C7, amended.  For every line \<open><IdleAnim: name, start, end>\<close> without
  a probability field, with any white space after the colon and the commas,
  a name that is not blank and has no comma and no \<open><\<close>, and two runs of
  digits, the loop appends the definition with the trimmed name, the two
  numbers and the weight 100.  In particular the text
  \<open><IdleAnim: Foo, 0, 2>\<close> gives the list with the one definition
  \<open>{Foo, 0, 2, 100}\<close>, and the text \<open>IdleAnim: Foo, 0, 2\<close> gives the empty list.
\<close>

theorem idle_anim_default_probability:
  assumes "CHR '','' \<notin> set nm" and "CHR ''<'' \<notin> set nm" and "\<exists>ch\<in>set nm. \<not> is_space ch"
    and "s \<noteq> []" and "list_all is_digit s"
    and "e \<noteq> []" and "list_all is_digit e"
    and "list_all is_space sp1" and "list_all is_space sp2" and "list_all is_space sp3"
  shows "parse_line (''<IdleAnim:'' @ sp1 @ nm @ '','' @ sp2 @ s @ '','' @ sp3 @ e @ ''>'') acc =
           (fst acc @
              [\<lparr>name = trim nm, startPattern = parseInt s, endPattern = parseInt e,
                probability = Fin 100\<rparr>],
            fst (snd acc), snd (snd acc))
         \<and> idleAnimations (loadIdleNotetags ''<IdleAnim: Foo, 0, 2>'' c) =
             [\<lparr>name = ''Foo'', startPattern = Fin 0, endPattern = Fin 2,
               probability = Fin 100\<rparr>]
         \<and> idleAnimations (loadIdleNotetags ''IdleAnim: Foo, 0, 2'' c) = []"
proof -
  have "parse_line (''<IdleAnim:'' @ sp1 @ nm @ '','' @ sp2 @ s @ '','' @ sp3 @ e @ ''>'') acc =
           (fst acc @
              [\<lparr>name = trim nm, startPattern = parseInt s, endPattern = parseInt e,
                probability =
                  js_or (parseInt (case match_opt_prob ''>'' of None \<Rightarrow> [] | Some ds \<Rightarrow> ds))
                    (Fin 100)\<rparr>],
            fst (snd acc), snd (snd acc))"
    using assms by (intro parse_line_tag [where x = "CHR ''>''" and r = "[]"])
      (simp_all add: punct_not_digit)
  moreover have "js_or (parseInt (case match_opt_prob ''>'' of None \<Rightarrow> [] | Some ds \<Rightarrow> ds))
                   (Fin 100) = Fin 100"
    by (simp add: match_opt_prob_def parseInt_def js_or_def js_truthy_def)
  ultimately show ?thesis
    by (simp add: loadIdleNotetags_def setCharacterIdleData_def parse_examples)
qed

text \<open>The first tag of the help text's example without its probability.\<close>

theorem idle_anim_default_probability_witness:
  "parse_line ''<IdleAnim: Hero_IdleBlink, 0, 2>'' ([animA], None, None) =
     ([animA,
       \<lparr>name = ''Hero_IdleBlink'', startPattern = Fin 0, endPattern = Fin 2,
         probability = Fin 100\<rparr>], None, None)"
proof -
  have "trim ''Hero_IdleBlink'' = ''Hero_IdleBlink''"
    by (simp add: trim_def is_space_def)
  moreover have "parseInt ''0'' = Fin 0" "parseInt ''2'' = Fin 2"
    by (simp_all add: parseInt_def digits_val_def digit_val_def js_round_small)
  ultimately show ?thesis
    using idle_anim_default_probability
      [of "''Hero_IdleBlink''" "''0''" "''2''" "'' ''" "'' ''" "'' ''" "([animA], None, None)"]
    by (simp add: eval_chars)
qed

text \<open>
  Claim C9.  For every line \<open><IdleAnim: name, start, end, 0>\<close>, formed as
  above, the loop appends the definition with the weight 100, because
  \<open>parseInt("0") || 100\<close> is 100; and no text at all gives a definition
  whose probability is 0.
\<close>

theorem zero_probability_parsed_as_default:
  assumes "CHR '','' \<notin> set nm" and "CHR ''<'' \<notin> set nm" and "\<exists>ch\<in>set nm. \<not> is_space ch"
    and "s \<noteq> []" and "list_all is_digit s"
    and "e \<noteq> []" and "list_all is_digit e"
    and "list_all is_space sp1" and "list_all is_space sp2" and "list_all is_space sp3"
    and "list_all is_space sp4"
  shows "parse_line
           (''<IdleAnim:'' @ sp1 @ nm @ '','' @ sp2 @ s @ '','' @ sp3 @ e @ '','' @ sp4 @ ''0>'')
           acc =
           (fst acc @
              [\<lparr>name = trim nm, startPattern = parseInt s, endPattern = parseInt e,
                probability = Fin 100\<rparr>],
            fst (snd acc), snd (snd acc))
         \<and> (\<forall>str. \<forall>anim\<in>set (fst (parse_note str)). probability anim \<noteq> Fin 0)"
proof -
  let ?tail = "'','' @ sp4 @ ''0>''"
  have "CHR ''<'' \<notin> set sp4"
    using assms(11) space_not_lt by (auto simp add: list_all_iff)
  then have "parse_line
           (''<IdleAnim:'' @ sp1 @ nm @ '','' @ sp2 @ s @ '','' @ sp3 @ e @ ?tail) acc =
           (fst acc @
              [\<lparr>name = trim nm, startPattern = parseInt s, endPattern = parseInt e,
                probability =
                  js_or (parseInt (case match_opt_prob ?tail of None \<Rightarrow> [] | Some ds \<Rightarrow> ds))
                    (Fin 100)\<rparr>],
            fst (snd acc), snd (snd acc))"
    using assms
    by (intro parse_line_tag [where x = "CHR '',''" and r = "sp4 @ ''0>''"])
      (simp_all add: punct_not_digit)
  moreover have "match_digits (sp4 @ ''0'' @ CHR ''>'' # []) = Some (''0'', ''>'')"
    using _ _ punct_not_digit(2) assms(11) by (rule match_digits_run) (simp_all add: is_digit_def)
  then have "match_opt_prob ?tail = Some ''0''"
    by (simp add: match_opt_prob_def)
  moreover have "js_or (parseInt ''0'') (Fin 100) = Fin 100"
    by (simp add: parseInt_def digits_val_def digit_val_def js_round_small js_or_def js_truthy_def)
  ultimately show ?thesis
    using parse_note_nonzero by simp
qed

text \<open>The second tag of the help text's example with its probability at 0.\<close>

theorem zero_probability_parsed_as_default_witness:
  "parse_line ''<IdleAnim: Hero_IdleStretch, 0, 2, 0>'' ([animA], None, None) =
     ([animA,
       \<lparr>name = ''Hero_IdleStretch'', startPattern = Fin 0, endPattern = Fin 2,
         probability = Fin 100\<rparr>], None, None)
   \<and> probability (last (fst (parse_note ''<IdleAnim: Hero_IdleStretch, 0, 2, 0>''))) \<noteq> Fin 0"
proof -
  have "trim ''Hero_IdleStretch'' = ''Hero_IdleStretch''"
    by (simp add: trim_def is_space_def)
  moreover have "parseInt ''0'' = Fin 0" "parseInt ''2'' = Fin 2"
    by (simp_all add: parseInt_def digits_val_def digit_val_def js_round_small)
  moreover have "parse_note ''<IdleAnim: Hero_IdleStretch, 0, 2, 0>'' =
      parse_line ''<IdleAnim: Hero_IdleStretch, 0, 2, 0>'' ([], None, None)"
    by (rule parse_note_one_line) simp
  ultimately show ?thesis
    using zero_probability_parsed_as_default
      [of "''Hero_IdleStretch''" "''0''" "''2''" "'' ''" "'' ''" "'' ''" "'' ''"]
    by (simp add: eval_chars)
qed

section \<open>The probability is global\<close>

lemma probability_gate:
  assumes "probability_decides env c"
  shows "\<exists>c'. updateIdle cfg env c = Inr c' \<and>
           (isIdling c' \<longleftrightarrow> js_lt (js_mul (roll_random env) (Fin 100)) (DEFAULT_PROB cfg))"
  using assms
  by (simp add: probability_decides_def stationary_def updateIdle_def startIdleAnimation_isIdling)

lemma loadIdleNotetags_fields:
  "\<exists>anims mn mx.
     loadIdleNotetags str c = c\<lparr>idleAnimations := anims, idleMinTime := mn, idleMaxTime := mx\<rparr>"
proof (cases "str = []")
  case True
  then have "loadIdleNotetags str c =
      c\<lparr>idleAnimations := idleAnimations c, idleMinTime := idleMinTime c,
        idleMaxTime := idleMaxTime c\<rparr>"
    by (simp add: loadIdleNotetags_def)
  then show ?thesis
    by blast
next
  case False
  obtain anims mn mx where p: "parse_note str = (anims, mn, mx)"
    by (cases "parse_note str") auto
  have "loadIdleNotetags str c =
          c\<lparr>idleAnimations := anims,
            idleMinTime := (case mn of None \<Rightarrow> idleMinTime c | Some v \<Rightarrow> v),
            idleMaxTime := (case mx of None \<Rightarrow> idleMaxTime c | Some v \<Rightarrow> v)\<rparr>"
    using False
    by (simp add: loadIdleNotetags_def p setCharacterIdleData_def split: option.splits)
  then show ?thesis
    by blast
qed

text \<open>
  Claim C8, as stated, fails: there is no text after which the probability
  check of the loaded character compares the roll with anything but the
  process-wide \<open>DEFAULT_PROB\<close>.
\<close>

theorem per_character_probability_counterexample:
  "\<not> (\<exists>str c cfg env c'.
        probability_decides env (loadIdleNotetags str c) \<and>
        updateIdle cfg env (loadIdleNotetags str c) = Inr c' \<and>
        isIdling c' \<noteq> js_lt (js_mul (roll_random env) (Fin 100)) (DEFAULT_PROB cfg))"
proof
  assume "\<exists>str c cfg env c'.
        probability_decides env (loadIdleNotetags str c) \<and>
        updateIdle cfg env (loadIdleNotetags str c) = Inr c' \<and>
        isIdling c' \<noteq> js_lt (js_mul (roll_random env) (Fin 100)) (DEFAULT_PROB cfg)"
  then obtain str c cfg env c' where
    "probability_decides env (loadIdleNotetags str c)"
    "updateIdle cfg env (loadIdleNotetags str c) = Inr c'"
    "isIdling c' \<noteq> js_lt (js_mul (roll_random env) (Fin 100)) (DEFAULT_PROB cfg)"
    by blast
  with probability_gate [of env "loadIdleNotetags str c" cfg] show False
    by auto
qed

text \<open>
  Claim C8, amended.  The minimum and the maximum idle time are overridable
  per character through the notetags \<open><IdleAnimMinTime: x>\<close> and
  \<open><IdleAnimMaxTime: x>\<close>.  The idle probability is not: whatever the text,
  \<open>loadIdleNotetags\<close> changes nothing but the definitions and the two times,
  and whenever the probability decides, the loaded character starts idling if
  and only if the roll is below \<open>DEFAULT_PROB\<close>.
\<close>

theorem idle_times_overridable_probability_global:
  "idleMinTime (loadIdleNotetags ''<IdleAnimMinTime: 3.0>'' c) = Fin 3
   \<and> idleMaxTime (loadIdleNotetags ''<IdleAnimMaxTime: 8.0>'' c) = Fin 8
   \<and> (\<forall>str. \<exists>anims mn mx.
         loadIdleNotetags str c =
           c\<lparr>idleAnimations := anims, idleMinTime := mn, idleMaxTime := mx\<rparr>)
   \<and> (\<forall>str cfg env.
         probability_decides env (loadIdleNotetags str c) \<longrightarrow>
         (\<exists>c'. updateIdle cfg env (loadIdleNotetags str c) = Inr c' \<and>
               (isIdling c' \<longleftrightarrow>
                  js_lt (js_mul (roll_random env) (Fin 100)) (DEFAULT_PROB cfg))))"
  using loadIdleNotetags_fields [of _ c] probability_gate
  by (simp add: loadIdleNotetags_def setCharacterIdleData_def parse_examples)

text \<open>
  A character loaded from \<open><IdleAnim: Foo, 0, 2>\<close> one second into its wait,
  under a configured probability of 30: the roll of 50 does not start the
  animation.
\<close>

theorem idle_times_overridable_probability_global_witness:
  "probability_decides (still (Fin (1 / 2)) (Fin 0))
     (loadIdleNotetags ''<IdleAnim: Foo, 0, 2>'' (scenario_char\<lparr>idleTimer := Fin 1\<rparr>))
   \<and> (\<exists>c'. updateIdle (scenario_cfg\<lparr>DEFAULT_PROB := Fin 30\<rparr>) (still (Fin (1 / 2)) (Fin 0))
              (loadIdleNotetags ''<IdleAnim: Foo, 0, 2>'' (scenario_char\<lparr>idleTimer := Fin 1\<rparr>))
            = Inr c' \<and> \<not> isIdling c')
   \<and> js_mul (Fin (1 / 2)) (Fin 100) = Fin 50"
proof -
  let ?c = "loadIdleNotetags ''<IdleAnim: Foo, 0, 2>'' (scenario_char\<lparr>idleTimer := Fin 1\<rparr>)"
  let ?env = "still (Fin (1 / 2)) (Fin 0)"
  have d: "probability_decides ?env ?c"
    by (simp add: probability_decides_def loadIdleNotetags_def setCharacterIdleData_def
        parse_examples still_fields scenario_char_fields timer_one_tick js_ge_def js_gt_def)
  have roll: "js_mul (Fin (1 / 2)) (Fin 100) = Fin 50"
    by (simp add: js_round_small)
  from idle_times_overridable_probability_global [of "scenario_char\<lparr>idleTimer := Fin 1\<rparr>"] d
  have "\<exists>c'. updateIdle (scenario_cfg\<lparr>DEFAULT_PROB := Fin 30\<rparr>) ?env ?c = Inr c' \<and>
          (isIdling c' \<longleftrightarrow>
             js_lt (js_mul (roll_random ?env) (Fin 100))
               (DEFAULT_PROB (scenario_cfg\<lparr>DEFAULT_PROB := Fin 30\<rparr>)))"
    by blast
  then show ?thesis
    using d roll by (auto simp add: still_fields js_round_small)
qed

end
